theory Spec2Isabelle
  imports Complex_Main
begin

section \<open>Multi-headed attention\<close>

text \<open>
  The embedding follows \<^verbatim>\<open>labml_nn/transformers/mha.py\<close>. A tensor is its shape together
  with its elements in row-major (logical) order, as many as the shape says
  (\<open>wf_tensor\<close>); the elements are real numbers, which idealise the floats of the source.
  Python exceptions are values of \<open>error\<close>. The learned parameters, which the source draws
  at random when the layers are built, and the Bernoulli draws of dropout are explicit
  arguments.
\<close>

subsection \<open>Tensors\<close>

datatype error = ZeroDivisionError | ValueError | RuntimeError | AssertionError | IndexError

record 'a tensor =
  shape :: "nat list"
  data :: "'a list"

definition wf_tensor :: "'a tensor \<Rightarrow> bool" where
  "wf_tensor t = (length (data t) = prod_list (shape t))"

text \<open>Row-major offsets of an element of a tensor with three or four axes.\<close>

definition off3 :: "nat \<Rightarrow> nat \<Rightarrow> nat \<Rightarrow> nat \<Rightarrow> nat \<Rightarrow> nat" where
  "off3 d1 d2 i j k = (i * d1 + j) * d2 + k"

definition off4 :: "nat \<Rightarrow> nat \<Rightarrow> nat \<Rightarrow> nat \<Rightarrow> nat \<Rightarrow> nat \<Rightarrow> nat \<Rightarrow> nat" where
  "off4 d1 d2 d3 i j k l = ((i * d1 + j) * d2 + k) * d3 + l"

definition at3 :: "'a tensor \<Rightarrow> nat \<Rightarrow> nat \<Rightarrow> nat \<Rightarrow> 'a" where
  "at3 t i j k = data t ! off3 (shape t ! 1) (shape t ! 2) i j k"

definition at4 :: "'a tensor \<Rightarrow> nat \<Rightarrow> nat \<Rightarrow> nat \<Rightarrow> nat \<Rightarrow> 'a" where
  "at4 t i j k l = data t ! off4 (shape t ! 1) (shape t ! 2) (shape t ! 3) i j k l"

text \<open>
  A tensor with four axes given by its elements: the element at flat position \<open>n\<close> has
  the indices \<open>n\<close> unravels to.
\<close>

definition tabulate4 :: "nat \<Rightarrow> nat \<Rightarrow> nat \<Rightarrow> nat \<Rightarrow> (nat \<Rightarrow> nat \<Rightarrow> nat \<Rightarrow> nat \<Rightarrow> 'a) \<Rightarrow> 'a tensor" where
  "tabulate4 d0 d1 d2 d3 f =
     \<lparr>shape = [d0, d1, d2, d3],
      data = map (\<lambda>n. f (n div (d1 * d2 * d3)) (n div (d2 * d3) mod d1) (n div d3 mod d2) (n mod d3))
                 [0..<d0 * d1 * d2 * d3]\<rparr>"

text \<open>
  Row-major indexing for any number of axes: the indices a flat position unravels to, and
  the flat position of a list of indices.
\<close>

fun unravel :: "nat list \<Rightarrow> nat \<Rightarrow> nat list" where
  "unravel [] n = []"
| "unravel (d # ds) n = (n div prod_list ds) mod d # unravel ds n"

fun ravel :: "nat list \<Rightarrow> nat list \<Rightarrow> nat" where
  "ravel (d # ds) (i # js) = i * prod_list ds + ravel ds js"
| "ravel _ _ = 0"

text \<open>
  Size inference of \<^verbatim>\<open>Tensor.view\<close> and \<^verbatim>\<open>Tensor.reshape\<close>: at most one size is
  \<open>-1\<close> and is inferred from the number of elements; the inference fails when the other
  sizes multiply to zero or do not divide the number of elements.
\<close>

definition infer_size :: "int list \<Rightarrow> nat \<Rightarrow> error + nat list" where
  "infer_size sizes n =
     (if list_ex (\<lambda>d. d < - 1) sizes then Inl RuntimeError
      else if 1 < length (filter (\<lambda>d. d = - 1) sizes) then Inl RuntimeError
      else
        let known = nat (prod_list (filter (\<lambda>d. d \<noteq> - 1) sizes)) in
        if list_ex (\<lambda>d. d = - 1) sizes then
          (if known \<noteq> 0 \<and> n mod known = 0
           then Inr (map (\<lambda>d. if d = - 1 then n div known else nat d) sizes)
           else Inl RuntimeError)
        else if known = n then Inr (map nat sizes)
        else Inl RuntimeError)"

text \<open>
  \<^verbatim>\<open>x.view(*sizes)\<close> and \<^verbatim>\<open>x.reshape(*sizes)\<close> keep the elements in their row-major
  order and replace the shape.
\<close>

definition reshape :: "'a tensor \<Rightarrow> int list \<Rightarrow> error + 'a tensor" where
  "reshape x sizes =
     (case infer_size sizes (length (data x)) of
        Inl e \<Rightarrow> Inl e
      | Inr s \<Rightarrow> Inr (x\<lparr>shape := s\<rparr>))"

subsection \<open>Linear layers\<close>

text \<open>
  \<^verbatim>\<open>nn.Linear(in_features, out_features, bias)\<close>: the weight has shape
  \<open>[out_features, in_features]\<close>. Creating a tensor with a negative dimension raises.
\<close>

record linear =
  in_features :: nat
  out_features :: nat
  weight :: "nat \<Rightarrow> nat \<Rightarrow> real"
  bias :: "(nat \<Rightarrow> real) option"

type_synonym linear_init = "(nat \<Rightarrow> nat \<Rightarrow> real) \<times> (nat \<Rightarrow> real)"

definition nn_Linear :: "int \<Rightarrow> int \<Rightarrow> bool \<Rightarrow> linear_init \<Rightarrow> error + linear" where
  "nn_Linear n_in n_out use_bias init =
     (if n_in < 0 \<or> n_out < 0 then Inl RuntimeError
      else Inr \<lparr>in_features = nat n_in, out_features = nat n_out,
                weight = fst init,
                bias = (if use_bias then Some (snd init) else None)\<rparr>)"

text \<open>
  Applying the layer: \<open>y[.., o] = (\<Sum>k. x[.., k] * W[o, k]) + b[o]\<close> on the last axis,
  which must have \<open>in_features\<close> entries.
\<close>

definition linear_call :: "linear \<Rightarrow> real tensor \<Rightarrow> error + real tensor" where
  "linear_call l x =
     (if shape x = [] \<or> last (shape x) \<noteq> in_features l then Inl RuntimeError
      else
        Inr \<lparr>shape = butlast (shape x) @ [out_features l],
             data = map (\<lambda>n.
                      (\<Sum>k<in_features l.
                          data x ! (n div out_features l * in_features l + k)
                            * weight l (n mod out_features l) k)
                      + (case bias l of None \<Rightarrow> 0 | Some b \<Rightarrow> b (n mod out_features l)))
                    [0..<prod_list (butlast (shape x)) * out_features l]\<rparr>)"

subsection \<open>PrepareForMultiHeadAttention\<close>

record prepare =
  p_linear :: linear
  p_heads :: int
  p_d_k :: int

definition PrepareForMultiHeadAttention ::
  "int \<Rightarrow> int \<Rightarrow> int \<Rightarrow> bool \<Rightarrow> linear_init \<Rightarrow> error + prepare" where
  "PrepareForMultiHeadAttention d_model heads d_k use_bias init =
     (case nn_Linear d_model (heads * d_k) use_bias init of
        Inl e \<Rightarrow> Inl e
      | Inr l \<Rightarrow> Inr \<lparr>p_linear = l, p_heads = heads, p_d_k = d_k\<rparr>)"

text \<open>
  \<^verbatim>\<open>seq_len, batch_size, _ = x.shape\<close> needs exactly three axes; then the linear
  transform and the split of the last axis into heads.
\<close>

definition prepare_call :: "prepare \<Rightarrow> real tensor \<Rightarrow> error + real tensor" where
  "prepare_call p x =
     (case shape x of
        [seq_len, batch_size, _] \<Rightarrow>
          (case linear_call (p_linear p) x of
             Inl e \<Rightarrow> Inl e
           | Inr y \<Rightarrow> reshape y [int seq_len, int batch_size, p_heads p, p_d_k p])
      | _ \<Rightarrow> Inl ValueError)"

subsection \<open>MultiHeadAttention: construction\<close>

record mha =
  d_k :: int
  heads :: int
  query_prep :: prepare
  key_prep :: prepare
  value_prep :: prepare
  output_layer :: linear
  dropout_p :: real
  training :: bool
  scale :: real
  attn :: "real tensor option"

record mha_init =
  query_init :: linear_init
  key_init :: linear_init
  value_init :: linear_init
  output_init :: linear_init

text \<open>\<^verbatim>\<open>nn.Dropout(p)\<close> rejects a probability outside \<open>[0, 1]\<close>.\<close>

definition nn_Dropout :: "real \<Rightarrow> error + real" where
  "nn_Dropout p = (if p < 0 \<or> 1 < p then Inl ValueError else Inr p)"

text \<open>
  \<^verbatim>\<open>1 / math.sqrt(d_k)\<close>: \<^verbatim>\<open>math.sqrt\<close> raises on a negative argument and the
  division raises on zero.
\<close>

definition scale_of :: "int \<Rightarrow> error + real" where
  "scale_of dk =
     (if dk < 0 then Inl ValueError
      else if sqrt (real_of_int dk) = 0 then Inl ZeroDivisionError
      else Inr (1 / sqrt (real_of_int dk)))"

text \<open>
  \<^verbatim>\<open>MultiHeadAttention.__init__\<close>, statement by statement. \<^verbatim>\<open>d_model // heads\<close> is floor
  division and raises when \<open>heads = 0\<close>. A new module is in training mode.
\<close>

definition MultiHeadAttention ::
  "int \<Rightarrow> int \<Rightarrow> real \<Rightarrow> bool \<Rightarrow> mha_init \<Rightarrow> error + mha" where
  "MultiHeadAttention hds d_model dropout_prob use_bias init =
     (if hds = 0 then Inl ZeroDivisionError
      else
        let dk = d_model div hds in
        (case PrepareForMultiHeadAttention d_model hds dk use_bias (query_init init) of
           Inl e \<Rightarrow> Inl e
         | Inr q \<Rightarrow>
        (case PrepareForMultiHeadAttention d_model hds dk use_bias (key_init init) of
           Inl e \<Rightarrow> Inl e
         | Inr k \<Rightarrow>
        (case PrepareForMultiHeadAttention d_model hds dk use_bias (value_init init) of
           Inl e \<Rightarrow> Inl e
         | Inr v \<Rightarrow>
        (case nn_Linear d_model d_model True (output_init init) of
           Inl e \<Rightarrow> Inl e
         | Inr out \<Rightarrow>
        (case nn_Dropout dropout_prob of
           Inl e \<Rightarrow> Inl e
         | Inr p \<Rightarrow>
        (case scale_of dk of
           Inl e \<Rightarrow> Inl e
         | Inr sc \<Rightarrow>
             Inr \<lparr>d_k = dk, heads = hds, query_prep = q, key_prep = k, value_prep = v,
                  output_layer = out, dropout_p = p, training = True, scale = sc,
                  attn = None\<rparr>)))))))"

subsection \<open>MultiHeadAttention: the forward computation\<close>

text \<open>
  \<^verbatim>\<open>torch.einsum\<close> lets two axes with the same subscript differ when one of them has
  size one, which is then broadcast.
\<close>

definition bcast_ok :: "nat \<Rightarrow> nat \<Rightarrow> bool" where
  "bcast_ok a b = (a = b \<or> a = 1 \<or> b = 1)"

definition bdim :: "nat \<Rightarrow> nat \<Rightarrow> nat" where
  "bdim a b = (if a = 1 then b else a)"

definition bidx :: "nat \<Rightarrow> nat \<Rightarrow> nat" where
  "bidx d i = (if d = 1 then 0 else i)"

text \<open>
  \<^verbatim>\<open>get_scores\<close>: \<^verbatim>\<open>torch.einsum('ibhd,jbhd->ijbh', query, key)\<close>, that is
  \<open>S[i,j,b,h] = (\<Sum>d. Q[i,b,h,d] * K[j,b,h,d])\<close>.
\<close>

definition get_scores :: "real tensor \<Rightarrow> real tensor \<Rightarrow> error + real tensor" where
  "get_scores q k =
     (case shape q of
        [si, bq, hq, dq] \<Rightarrow>
          (case shape k of
             [sj, bk, hk, dk] \<Rightarrow>
               (if bcast_ok bq bk \<and> bcast_ok hq hk \<and> bcast_ok dq dk
                then Inr (tabulate4 si sj (bdim bq bk) (bdim hq hk)
                       (\<lambda>i j b h. \<Sum>d<bdim dq dk.
                           at4 q i (bidx bq b) (bidx hq h) (bidx dq d)
                             * at4 k j (bidx bk b) (bidx hk h) (bidx dk d)))
                else Inl RuntimeError)
           | _ \<Rightarrow> Inl RuntimeError)
      | _ \<Rightarrow> Inl RuntimeError)"

text \<open>\<^verbatim>\<open>scores *= self.scale\<close>\<close>

definition scale_scores :: "real \<Rightarrow> real tensor \<Rightarrow> real tensor" where
  "scale_scores c s = s\<lparr>data := map (\<lambda>v. v * c) (data s)\<rparr>"

text \<open>
  The entry check on the mask, then \<^verbatim>\<open>mask.unsqueeze(-1)\<close>. Reading
  \<^verbatim>\<open>mask.shape[0]\<close> or \<^verbatim>\<open>mask.shape[1]\<close> of a tensor with too few axes raises
  \<^verbatim>\<open>IndexError\<close>; \<^verbatim>\<open>or\<close> does not read \<^verbatim>\<open>mask.shape[1]\<close> when the first test holds.
\<close>

definition check_mask :: "bool tensor \<Rightarrow> error + bool tensor" where
  "check_mask m =
     (case shape m of
        [] \<Rightarrow> Inl IndexError
      | m0 # rest \<Rightarrow>
          if m0 = 1 then Inr (m\<lparr>shape := shape m @ [1]\<rparr>)
          else (case rest of
                  [] \<Rightarrow> Inl IndexError
                | m1 # _ \<Rightarrow>
                    if m0 = m1 then Inr (m\<lparr>shape := shape m @ [1]\<rparr>)
                    else Inl AssertionError))"

text \<open>\<^verbatim>\<open>mask == 0\<close> on a boolean tensor: true where the mask is false.\<close>

definition eq_zero :: "bool tensor \<Rightarrow> bool tensor" where
  "eq_zero m = m\<lparr>data := map Not (data m)\<rparr>"

text \<open>
  \<^verbatim>\<open>scores.masked_fill(fill, value)\<close>, the out-of-place operation: the scores and
  \<open>fill\<close> are aligned at their trailing axes and broadcast to a common shape, which fails
  when two aligned axes differ and neither has size one; the result has the common shape,
  with \<open>value\<close> where \<open>fill\<close> is true and the score elsewhere.
\<close>

definition masked_fill :: "real tensor \<Rightarrow> bool tensor \<Rightarrow> real \<Rightarrow> error + real tensor" where
  "masked_fill s fill v =
     (let r = max (length (shape s)) (length (shape fill));
          ss = replicate (r - length (shape s)) 1 @ shape s;
          fs = replicate (r - length (shape fill)) 1 @ shape fill
      in if list_all2 bcast_ok ss fs
         then Inr \<lparr>shape = map2 bdim ss fs,
                   data = map (\<lambda>n.
                            if data fill ! ravel fs (map2 bidx fs (unravel (map2 bdim ss fs) n))
                            then v
                            else data s ! ravel ss (map2 bidx ss (unravel (map2 bdim ss fs) n)))
                          [0..<prod_list (map2 bdim ss fs)]\<rparr>
         else Inl RuntimeError)"

text \<open>
  \<^verbatim>\<open>F.softmax(scores, dim=1)\<close>: every element is the exponential of the score divided
  by the sum of the exponentials along the second axis, the other indices being fixed;
  for scores with four axes \<open>A[i,j,b,h] = exp S[i,j,b,h] / (\<Sum>j'. exp S[i,j',b,h])\<close>. A
  tensor with fewer than two axes has no axis 1.
\<close>

definition softmax_dim1 :: "real tensor \<Rightarrow> error + real tensor" where
  "softmax_dim1 s =
     (if length (shape s) < 2 then Inl IndexError
      else Inr \<lparr>shape = shape s,
                data = map (\<lambda>n. exp (data s ! n)
                           / (\<Sum>j<shape s ! 1.
                                exp (data s ! ravel (shape s) ((unravel (shape s) n)[1 := j]))))
                         [0..<prod_list (shape s)]\<rparr>)"

text \<open>
  \<^verbatim>\<open>nn.Dropout\<close>: the identity in evaluation mode, for \<open>p = 0\<close> and on an empty
  tensor; all zeros for \<open>p = 1\<close>; otherwise every element is kept with probability
  \<open>1 - p\<close>, as the draw \<open>keep n\<close> of the randomness source says, and a kept element is
  divided by \<open>1 - p\<close>.
\<close>

definition dropout :: "real \<Rightarrow> bool \<Rightarrow> (nat \<Rightarrow> bool) \<Rightarrow> real tensor \<Rightarrow> real tensor" where
  "dropout p train keep x =
     (if p = 0 \<or> \<not> train \<or> data x = [] then x
      else if p = 1 then x\<lparr>data := map (\<lambda>v. 0) (data x)\<rparr>
      else x\<lparr>data := map (\<lambda>n. if keep n then data x ! n / (1 - p) else 0)
                         [0..<length (data x)]\<rparr>)"

text \<open>
  \<^verbatim>\<open>torch.einsum("ijbh,jbhd->ibhd", attn, value)\<close>:
  \<open>X[i,b,h,d] = (\<Sum>j. A[i,j,b,h] * V[j,b,h,d])\<close>.
\<close>

definition aggregate :: "real tensor \<Rightarrow> real tensor \<Rightarrow> error + real tensor" where
  "aggregate a v =
     (case shape a of
        [si, ja, ba, ha] \<Rightarrow>
          (case shape v of
             [jv, bv, hv, dv] \<Rightarrow>
               (if bcast_ok ja jv \<and> bcast_ok ba bv \<and> bcast_ok ha hv
                then Inr (tabulate4 si (bdim ba bv) (bdim ha hv) dv
                       (\<lambda>i b h d. \<Sum>j<bdim ja jv.
                           at4 a i (bidx ja j) (bidx ba b) (bidx ha h)
                             * at4 v (bidx jv j) (bidx bv b) (bidx hv h) d))
                else Inl RuntimeError)
           | _ \<Rightarrow> Inl RuntimeError)
      | _ \<Rightarrow> Inl RuntimeError)"

text \<open>
  The attention weights of a call, lines 126 to 162 of the source: the tensor handed to
  \<^verbatim>\<open>tracker.debug\<close> (the softmax output) and the tensor after dropout, together with
  the projected values and the two sizes read from \<^verbatim>\<open>query.shape\<close>.
\<close>

record attention =
  seq_len :: nat
  batch_size :: nat
  debug_attn :: "real tensor"
  dropped_attn :: "real tensor"
  proj_value :: "real tensor"

definition attention_weights ::
  "mha \<Rightarrow> (nat \<Rightarrow> bool) \<Rightarrow> real tensor \<Rightarrow> real tensor \<Rightarrow> real tensor
     \<Rightarrow> bool tensor option \<Rightarrow> error + attention" where
  "attention_weights m keep query key val msk =
     (case shape query of
        [sl, bs, _] \<Rightarrow>
          (case (case msk of None \<Rightarrow> Inr None
                 | Some mk \<Rightarrow> (case check_mask mk of Inl e \<Rightarrow> Inl e | Inr mk' \<Rightarrow> Inr (Some mk'))) of
             Inl e \<Rightarrow> Inl e
           | Inr msk' \<Rightarrow>
          (case prepare_call (query_prep m) query of
             Inl e \<Rightarrow> Inl e
           | Inr q \<Rightarrow>
          (case prepare_call (key_prep m) key of
             Inl e \<Rightarrow> Inl e
           | Inr k \<Rightarrow>
          (case prepare_call (value_prep m) val of
             Inl e \<Rightarrow> Inl e
           | Inr v \<Rightarrow>
          (case get_scores q k of
             Inl e \<Rightarrow> Inl e
           | Inr raw \<Rightarrow>
          (case (case msk' of None \<Rightarrow> Inr (scale_scores (scale m) raw)
                 | Some mk' \<Rightarrow> masked_fill (scale_scores (scale m) raw) (eq_zero mk') (- 1000000000)) of
             Inl e \<Rightarrow> Inl e
           | Inr scores \<Rightarrow>
          (case softmax_dim1 scores of
             Inl e \<Rightarrow> Inl e
           | Inr a \<Rightarrow>
               Inr \<lparr>seq_len = sl, batch_size = bs, debug_attn = a,
                    dropped_attn = dropout (dropout_p m) (training m) keep a,
                    proj_value = v\<rparr>)))))))
      | _ \<Rightarrow> Inl ValueError)"

text \<open>
  \<^verbatim>\<open>attn.detach()\<close> returns a tensor with the shape and the elements of its argument,
  cut off from the graph that gradients are computed on. The tensors here carry no such
  graph, so nothing else distinguishes the result from the argument.
\<close>

definition detach :: "'a tensor \<Rightarrow> 'a tensor" where
  [simp]: "detach x = x"

text \<open>
  \<^verbatim>\<open>MultiHeadAttention.__call__\<close>. The result is the module after the call, the tensors
  handed to \<^verbatim>\<open>tracker.debug\<close> during the call, and the returned tensor or the exception
  raised. \<^verbatim>\<open>self.attn\<close> is assigned after the aggregation and before the reshape, so a
  call that raises later has already replaced it.
\<close>

definition forward ::
  "mha \<Rightarrow> (nat \<Rightarrow> bool) \<Rightarrow> real tensor \<Rightarrow> real tensor \<Rightarrow> real tensor
     \<Rightarrow> bool tensor option \<Rightarrow> mha \<times> real tensor list \<times> (error + real tensor)" where
  "forward m keep query key val msk =
     (case attention_weights m keep query key val msk of
        Inl e \<Rightarrow> (m, [], Inl e)
      | Inr w \<Rightarrow>
          (case aggregate (dropped_attn w) (proj_value w) of
             Inl e \<Rightarrow> (m, [debug_attn w], Inl e)
           | Inr x \<Rightarrow>
               (m\<lparr>attn := Some (detach (dropped_attn w))\<rparr>, [debug_attn w],
                (case reshape x [int (seq_len w), int (batch_size w), - 1] of
                   Inl e \<Rightarrow> Inl e
                 | Inr y \<Rightarrow> linear_call (output_layer m) y))))"

subsection \<open>Modes and reference parameters\<close>

text \<open>\<^verbatim>\<open>module.eval()\<close> and \<^verbatim>\<open>module.train()\<close> of \<^verbatim>\<open>nn.Module\<close>.\<close>

definition eval_mode :: "mha \<Rightarrow> mha" where
  "eval_mode m = m\<lparr>training := False\<rparr>"


text \<open>
  Identity weights and zero biases for the four linear layers, the parameters of the
  concrete scenario of the specification.
\<close>

definition ident_linear :: linear_init where
  "ident_linear = ((\<lambda>r c. if r = c then 1 else 0), (\<lambda>r. 0))"

definition ident_init :: mha_init where
  "ident_init = \<lparr>query_init = ident_linear, key_init = ident_linear,
                  value_init = ident_linear, output_init = ident_linear\<rparr>"

text \<open>
  The sizes of a module's layers: \<open>h\<close> heads of \<open>k\<close> features each on inputs of width
  \<open>D\<close>.
\<close>

definition prep_dims :: "prepare \<Rightarrow> nat \<Rightarrow> nat \<Rightarrow> nat \<Rightarrow> bool" where
  "prep_dims p h k D =
     (in_features (p_linear p) = D \<and> out_features (p_linear p) = h * k
      \<and> p_heads p = int h \<and> p_d_k p = int k)"

definition mha_dims :: "mha \<Rightarrow> nat \<Rightarrow> nat \<Rightarrow> nat \<Rightarrow> bool" where
  "mha_dims m h k D =
     (prep_dims (query_prep m) h k D \<and> prep_dims (key_prep m) h k D
      \<and> prep_dims (value_prep m) h k D
      \<and> in_features (output_layer m) = D \<and> out_features (output_layer m) = D
      \<and> 0 < h \<and> 0 < k)"

text \<open>
  The masks with three axes \<open>[mask_q, mask_k, mask_b]\<close> that a call with query length
  \<open>sq\<close>, key length \<open>sk\<close> and batch size \<open>B\<close> goes through with: the mask has as many
  elements as its shape says, the entry check passes, and every axis of the mask has size
  one or the size of the scores' axis, so that the masked scores have the shape of the
  scores.
\<close>

definition mask_accepted :: "bool tensor option \<Rightarrow> nat \<Rightarrow> nat \<Rightarrow> nat \<Rightarrow> bool" where
  "mask_accepted msk sq sk B =
     (case msk of
        None \<Rightarrow> True
      | Some mk \<Rightarrow>
          (case shape mk of
             [mq, mk1, mb] \<Rightarrow>
               wf_tensor mk \<and> (mq = 1 \<or> mq = mk1) \<and> (mq = 1 \<or> mq = sq)
                 \<and> (mk1 = 1 \<or> mk1 = sk) \<and> (mb = 1 \<or> mb = B)
           | _ \<Rightarrow> False))"


text \<open>
  The scores that reach the softmax, as a function of the indices: the raw scores of the
  projected queries \<open>Q\<close> and keys \<open>K\<close> times the scale \<open>c\<close>, replaced by \<open>-1e9\<close> where
  the (broadcast) mask is false.
\<close>

definition scores_fn ::
  "real \<Rightarrow> nat \<Rightarrow> real tensor \<Rightarrow> real tensor \<Rightarrow> bool tensor option
     \<Rightarrow> nat \<Rightarrow> nat \<Rightarrow> nat \<Rightarrow> nat \<Rightarrow> real" where
  "scores_fn c k Q K msk i j b h =
     (case msk of
        None \<Rightarrow> (\<Sum>d<k. at4 Q i b h d * at4 K j b h d) * c
      | Some mk \<Rightarrow>
          if at3 mk (bidx (shape mk ! 0) i) (bidx (shape mk ! 1) j) (bidx (shape mk ! 2) b)
          then (\<Sum>d<k. at4 Q i b h d * at4 K j b h d) * c
          else - 1000000000)"

definition softmax_fn :: "nat \<Rightarrow> (nat \<Rightarrow> nat \<Rightarrow> nat \<Rightarrow> nat \<Rightarrow> real) \<Rightarrow> nat \<Rightarrow> nat \<Rightarrow> nat \<Rightarrow> nat \<Rightarrow> real" where
  "softmax_fn sk S i j b h = exp (S i j b h) / (\<Sum>j'<sk. exp (S i j' b h))"

text \<open>
  Attention weights that let every query position attend to the key position of the same
  index only, for every batch element and head: aggregation with them is the identity.
\<close>

definition identity_attn :: "nat \<Rightarrow> nat \<Rightarrow> nat \<Rightarrow> real tensor" where
  "identity_attn s b h = tabulate4 s s b h (\<lambda>i j _ _. if i = j then 1 else 0)"

text \<open>Randomness sources: one that keeps every element, one that drops every element.\<close>

definition keep_all :: "nat \<Rightarrow> bool" where
  [simp]: "keep_all n = True"

definition drop_all :: "nat \<Rightarrow> bool" where
  [simp]: "drop_all n = False"


section \<open>Properties\<close>

subsection \<open>Row-major indexing\<close>

lemma ravel_less: "i < m \<Longrightarrow> j < n \<Longrightarrow> i * n + j < m * (n::nat)"
proof -
  assume a: "i < m" "j < n"
  have "i * n + j < Suc i * n" using a by simp
  also have "\<dots> \<le> m * n" using a by (simp only: Suc_leI mult_le_mono1)
  finally show ?thesis .
qed

lemma off4_less:
  assumes "i < d0" "j < d1" "k < d2" "l < d3"
  shows "off4 d1 d2 d3 i j k l < d0 * d1 * d2 * d3"
  unfolding off4_def using assms by (intro ravel_less)

lemma unravel4:
  assumes "j < d1" "k < d2" "l < d3"
  shows "off4 d1 d2 d3 i j k l div (d1 * d2 * d3) = i"
    and "off4 d1 d2 d3 i j k l div (d2 * d3) mod d1 = j"
    and "off4 d1 d2 d3 i j k l div d3 mod d2 = k"
    and "off4 d1 d2 d3 i j k l mod d3 = l"
proof -
  have a: "off4 d1 d2 d3 i j k l div d3 = (i * d1 + j) * d2 + k"
    using assms by (simp add: off4_def)
  have b: "((i * d1 + j) * d2 + k) div d2 = i * d1 + j"
    using assms by simp
  have c: "(i * d1 + j) div d1 = i" using assms by simp
  show "off4 d1 d2 d3 i j k l mod d3 = l" using assms by (simp add: off4_def)
  show "off4 d1 d2 d3 i j k l div d3 mod d2 = k" using assms by (simp add: a)
  have d: "off4 d1 d2 d3 i j k l div (d2 * d3) = i * d1 + j"
    by (metis a b div_mult2_eq mult.commute)
  show "off4 d1 d2 d3 i j k l div (d2 * d3) mod d1 = j" using assms by (simp add: d)
  have "off4 d1 d2 d3 i j k l div (d1 * d2 * d3) = off4 d1 d2 d3 i j k l div (d2 * d3) div d1"
    by (metis div_mult2_eq mult.commute mult.assoc)
  then show "off4 d1 d2 d3 i j k l div (d1 * d2 * d3) = i" by (simp add: d c)
qed

lemma ravel_unravel4:
  "off4 d1 d2 d3 (n div (d1 * d2 * d3)) (n div (d2 * d3) mod d1) (n div d3 mod d2) (n mod d3) = n"
proof -
  have a: "n div (d2 * d3) = n div d3 div d2"
    by (metis div_mult2_eq mult.commute)
  have b: "n div (d1 * d2 * d3) = n div d3 div d2 div d1"
    by (metis a div_mult2_eq mult.commute mult.assoc)
  show ?thesis
    unfolding off4_def a b by simp
qed

lemma shape_tabulate4 [simp]: "shape (tabulate4 d0 d1 d2 d3 f) = [d0, d1, d2, d3]"
  by (simp add: tabulate4_def)

lemma length_tabulate4 [simp]: "length (data (tabulate4 d0 d1 d2 d3 f)) = d0 * d1 * d2 * d3"
  by (simp add: tabulate4_def)

lemma wf_tabulate4 [simp]: "wf_tensor (tabulate4 d0 d1 d2 d3 f)"
  by (simp add: wf_tensor_def)

lemma at4_tabulate4:
  assumes "i < d0" "j < d1" "k < d2" "l < d3"
  shows "at4 (tabulate4 d0 d1 d2 d3 f) i j k l = f i j k l"
proof -
  have "off4 d1 d2 d3 i j k l < d0 * d1 * d2 * d3"
    using assms by (rule off4_less)
  then show ?thesis
    using assms by (simp add: at4_def tabulate4_def unravel4)
qed

lemma tabulate4_cong:
  assumes "\<And>i j k l. i < d0 \<Longrightarrow> j < d1 \<Longrightarrow> k < d2 \<Longrightarrow> l < d3 \<Longrightarrow> f i j k l = g i j k l"
  shows "tabulate4 d0 d1 d2 d3 f = tabulate4 d0 d1 d2 d3 g"
proof -
  have "f (n div (d1 * d2 * d3)) (n div (d2 * d3) mod d1) (n div d3 mod d2) (n mod d3)
      = g (n div (d1 * d2 * d3)) (n div (d2 * d3) mod d1) (n div d3 mod d2) (n mod d3)"
    if "n < d0 * d1 * d2 * d3" for n
  proof -
    have p: "0 < d1" "0 < d2" "0 < d3" using that by (auto intro: Nat.gr0I)
    have "n div (d1 * d2 * d3) < d0"
      using that p by (simp add: less_mult_imp_div_less mult.assoc)
    then show ?thesis using p by (intro assms) simp_all
  qed
  then show ?thesis by (simp add: tabulate4_def)
qed

lemma tabulate4_at4:
  assumes "shape t = [d0, d1, d2, d3]" "wf_tensor t"
  shows "tabulate4 d0 d1 d2 d3 (at4 t) = (t :: 'a tensor)"
proof -
  have "map (\<lambda>n. data t ! n) [0..<length (data t)] = data t"
    by (rule map_nth)
  moreover have "length (data t) = d0 * d1 * d2 * d3"
    using assms by (simp add: wf_tensor_def)
  ultimately have "data (tabulate4 d0 d1 d2 d3 (at4 t)) = data t"
    using assms by (simp add: tabulate4_def at4_def ravel_unravel4)
  then show ?thesis using assms by (simp add: tabulate4_def)
qed

subsection \<open>Construction\<close>

lemma construct_fields:
  assumes "0 < H" "H \<le> dm" "0 \<le> p" "p \<le> 1"
  shows "MultiHeadAttention H dm p ub init =
     Inr \<lparr>d_k = dm div H, heads = H,
          query_prep = \<lparr>p_linear = \<lparr>in_features = nat dm, out_features = nat (H * (dm div H)),
              weight = fst (query_init init),
              bias = (if ub then Some (snd (query_init init)) else None)\<rparr>,
            p_heads = H, p_d_k = dm div H\<rparr>,
          key_prep = \<lparr>p_linear = \<lparr>in_features = nat dm, out_features = nat (H * (dm div H)),
              weight = fst (key_init init),
              bias = (if ub then Some (snd (key_init init)) else None)\<rparr>,
            p_heads = H, p_d_k = dm div H\<rparr>,
          value_prep = \<lparr>p_linear = \<lparr>in_features = nat dm, out_features = nat (H * (dm div H)),
              weight = fst (value_init init),
              bias = (if ub then Some (snd (value_init init)) else None)\<rparr>,
            p_heads = H, p_d_k = dm div H\<rparr>,
          output_layer = \<lparr>in_features = nat dm, out_features = nat dm,
             weight = fst (output_init init), bias = Some (snd (output_init init))\<rparr>,
          dropout_p = p, training = True, scale = 1 / sqrt (real_of_int (dm div H)),
          attn = None\<rparr>"
proof -
  have dk: "0 < dm div H" using assms by (simp add: pos_imp_zdiv_pos_iff)
  have nn: "\<not> H * (dm div H) < 0" using assms dk by (simp add: mult_less_0_iff)
  show ?thesis
    using assms dk nn
    by (simp add: MultiHeadAttention_def PrepareForMultiHeadAttention_def nn_Linear_def
        nn_Dropout_def scale_of_def Let_def)
qed

lemma construct_Inr:
  assumes "MultiHeadAttention H dm p ub init = Inr m"
  shows "0 < H \<and> H \<le> dm \<and> 0 \<le> p \<and> p \<le> 1"
proof -
  have h0: "H \<noteq> 0" using assms by (auto simp: MultiHeadAttention_def)
  have dm0: "0 \<le> dm" using assms h0
    by (auto simp: MultiHeadAttention_def PrepareForMultiHeadAttention_def nn_Linear_def
        Let_def split: sum.splits if_splits)
  have dk: "0 < dm div H" using assms h0
    by (auto simp: MultiHeadAttention_def Let_def scale_of_def split: sum.splits if_splits)
  have pp: "0 \<le> p \<and> p \<le> 1" using assms h0
    by (auto simp: MultiHeadAttention_def Let_def nn_Dropout_def split: sum.splits if_splits)
  have "0 < H"
  proof (rule ccontr)
    assume "\<not> 0 < H"
    then have "H < 0" using h0 by simp
    then have "dm div H \<le> 0" using dm0 by (simp add: div_nonneg_neg_le0)
    then show False using dk by simp
  qed
  moreover have "H \<le> dm" using dk \<open>0 < H\<close> by (simp add: pos_imp_zdiv_pos_iff)
  ultimately show ?thesis using pp by simp
qed

lemma construct_dims:
  assumes "MultiHeadAttention H dm p ub init = Inr m"
  shows "mha_dims (m\<lparr>training := t, attn := a\<rparr>) (nat H) (nat (dm div H)) (nat dm)"
proof -
  have c: "0 < H" "H \<le> dm" "0 \<le> p" "p \<le> 1" using construct_Inr [OF assms] by simp_all
  have dk: "0 < dm div H" using c by (simp add: pos_imp_zdiv_pos_iff)
  have "nat (H * (dm div H)) = nat H * nat (dm div H)"
    using c by (simp add: nat_mult_distrib)
  then show ?thesis
    using assms c dk unfolding construct_fields [OF c]
    by (auto simp: mha_dims_def prep_dims_def)
qed

lemma sqrt_64: "sqrt 64 = 8"
  by (rule real_sqrt_unique) simp_all

subsection \<open>The steps of the forward computation on well-shaped tensors\<close>

lemma linear_call_3d:
  assumes "shape x = [s, b, D]" "in_features l = D"
  shows "\<exists>y. linear_call l x = Inr y \<and> shape y = [s, b, out_features l]
     \<and> length (data y) = s * b * out_features l"
  using assms by (simp add: linear_call_def)

lemma linear_call_mismatch:
  assumes "shape x = [s, b, D']" "in_features l \<noteq> D'"
  shows "linear_call l x = Inl RuntimeError"
  using assms by (auto simp add: linear_call_def)

lemma reshape_4:
  assumes "length (data y) = s * b * h * k"
  shows "reshape y [int s, int b, int h, int k] = Inr (y\<lparr>shape := [s, b, h, k]\<rparr>)"
proof -
  have "nat (int s * (int b * (int h * int k))) = s * b * h * k"
    by (simp add: nat_mult_distrib mult.assoc)
  then show ?thesis
    using assms by (simp add: reshape_def infer_size_def)
qed

lemma prepare_call_ok:
  assumes "prep_dims p h k D" "shape x = [s, b, D]"
  shows "\<exists>y. linear_call (p_linear p) x = Inr y
     \<and> prepare_call p x = Inr (y\<lparr>shape := [s, b, h, k]\<rparr>)
     \<and> length (data y) = s * b * h * k \<and> shape y = [s, b, h * k]"
proof -
  obtain y where y: "linear_call (p_linear p) x = Inr y" "shape y = [s, b, h * k]"
    "length (data y) = s * b * (h * k)"
    using linear_call_3d [of x s b D "p_linear p"] assms by (auto simp: prep_dims_def)
  have "length (data y) = s * b * h * k" using y by (simp add: mult.assoc)
  from reshape_4 [OF this] show ?thesis
    using y assms by (simp add: prepare_call_def prep_dims_def mult.assoc)
qed

lemma bidx_id: "i < d \<Longrightarrow> bidx d i = i"
  by (auto simp: bidx_def)

lemma bdim_same [simp]: "bdim a a = a"
  by (simp add: bdim_def)

lemma bcast_ok_refl [simp]: "bcast_ok a a"
  by (simp add: bcast_ok_def)

lemma get_scores_ok:
  assumes "shape q = [sq, B, h, k]" "shape kk = [sk, B, h, k]"
  shows "get_scores q kk = Inr (tabulate4 sq sk B h
           (\<lambda>i j b hh. \<Sum>d<k. at4 q i b hh d * at4 kk j b hh d))"
proof -
  have "tabulate4 sq sk B h (\<lambda>i j b hh. \<Sum>d<k. at4 q i (bidx B b) (bidx h hh) (bidx k d)
            * at4 kk j (bidx B b) (bidx h hh) (bidx k d))
      = tabulate4 sq sk B h (\<lambda>i j b hh. \<Sum>d<k. at4 q i b hh d * at4 kk j b hh d)"
    by (rule tabulate4_cong) (simp add: bidx_id)
  then show ?thesis using assms by (simp add: get_scores_def)
qed

lemma scale_scores_tabulate4:
  "scale_scores c (tabulate4 d0 d1 d2 d3 f) = tabulate4 d0 d1 d2 d3 (\<lambda>i j b h. f i j b h * c)"
  by (simp add: scale_scores_def tabulate4_def)

lemma unravel_4d_range:
  assumes "(n::nat) < d0 * d1 * d2 * d3"
  shows "n div (d1 * d2 * d3) < d0" "n div (d2 * d3) mod d1 < d1"
    "n div d3 mod d2 < d2" "n mod d3 < d3"
proof -
  have p: "0 < d1" "0 < d2" "0 < d3" using assms by (auto intro: Nat.gr0I)
  show "n div (d1 * d2 * d3) < d0"
    using assms p by (simp add: less_mult_imp_div_less mult.assoc)
  show "n div (d2 * d3) mod d1 < d1" "n div d3 mod d2 < d2" "n mod d3 < d3"
    using p by simp_all
qed

lemma unravel_4d:
  assumes "n < d0 * d1 * d2 * d3"
  shows "unravel [d0, d1, d2, d3] n
     = [n div (d1 * d2 * d3), n div (d2 * d3) mod d1, n div d3 mod d2, n mod d3]"
  using unravel_4d_range(1) [OF assms] by (simp add: mult.assoc)

lemma ravel_4d: "ravel [d0, d1, d2, d3] [i, j, k, l] = off4 d1 d2 d3 i j k l"
  by (simp add: off4_def algebra_simps)

lemma tensor_eq_tabulate4:
  assumes "\<And>n. n < d0 * d1 * d2 * d3 \<Longrightarrow>
      g n = f (n div (d1 * d2 * d3)) (n div (d2 * d3) mod d1) (n div d3 mod d2) (n mod d3)"
  shows "\<lparr>shape = [d0, d1, d2, d3], data = map g [0..<d0 * d1 * d2 * d3]\<rparr>
     = tabulate4 d0 d1 d2 d3 f"
  using assms by (simp add: tabulate4_def)

lemma softmax_dim1_4d:
  assumes "shape s = [d0, d1, d2, d3]"
  shows "softmax_dim1 s = Inr (tabulate4 d0 d1 d2 d3
      (\<lambda>i j b h. exp (at4 s i j b h) / (\<Sum>j'<d1. exp (at4 s i j' b h))))"
proof -
  have pl: "prod_list [d0, d1, d2, d3] = d0 * d1 * d2 * d3" by (simp add: mult.assoc)
  have "exp (data s ! n)
          / (\<Sum>j<d1. exp (data s ! ravel [d0, d1, d2, d3] ((unravel [d0, d1, d2, d3] n)[1 := j])))
      = exp (at4 s (n div (d1 * d2 * d3)) (n div (d2 * d3) mod d1) (n div d3 mod d2) (n mod d3))
          / (\<Sum>j'<d1. exp (at4 s (n div (d1 * d2 * d3)) j' (n div d3 mod d2) (n mod d3)))"
    if "n < d0 * d1 * d2 * d3" for n
    unfolding unravel_4d [OF that]
    by (simp add: ravel_4d at4_def assms ravel_unravel4 del: ravel.simps)
  then have "\<lparr>shape = [d0, d1, d2, d3],
        data = map (\<lambda>n. exp (data s ! n)
          / (\<Sum>j<d1. exp (data s ! ravel [d0, d1, d2, d3] ((unravel [d0, d1, d2, d3] n)[1 := j]))))
          [0..<d0 * d1 * d2 * d3]\<rparr>
      = tabulate4 d0 d1 d2 d3
          (\<lambda>i j b h. exp (at4 s i j b h) / (\<Sum>j'<d1. exp (at4 s i j' b h)))"
    by (rule tensor_eq_tabulate4)
  then show ?thesis
    unfolding softmax_dim1_def assms pl by simp
qed

lemma softmax_tabulate4:
  "softmax_dim1 (tabulate4 d0 d1 d2 d3 f) = Inr (tabulate4 d0 d1 d2 d3
      (\<lambda>i j b h. exp (f i j b h) / (\<Sum>j'<d1. exp (f i j' b h))))"
proof -
  have "tabulate4 d0 d1 d2 d3 (\<lambda>i j b h. exp (at4 (tabulate4 d0 d1 d2 d3 f) i j b h)
            / (\<Sum>j'<d1. exp (at4 (tabulate4 d0 d1 d2 d3 f) i j' b h)))
      = tabulate4 d0 d1 d2 d3 (\<lambda>i j b h. exp (f i j b h) / (\<Sum>j'<d1. exp (f i j' b h)))"
    by (rule tabulate4_cong) (simp add: at4_tabulate4)
  then show ?thesis by (simp add: softmax_dim1_4d)
qed

lemma dropout_shape [simp]: "shape (dropout p t keep x) = shape x"
  by (simp add: dropout_def)

lemma dropout_length [simp]: "length (data (dropout p t keep x)) = length (data x)"
  by (simp add: dropout_def)

lemma dropout_off: "p = 0 \<or> \<not> t \<Longrightarrow> dropout p t keep x = x"
  by (auto simp: dropout_def)

lemma aggregate_ok:
  assumes "shape a = [sq, sk, B, h]" "shape v = [sk, B, h, k]"
  shows "aggregate a v = Inr (tabulate4 sq B h k
           (\<lambda>i b hh d. \<Sum>j<sk. at4 a i j b hh * at4 v j b hh d))"
proof -
  have "tabulate4 sq B h k (\<lambda>i b hh d. \<Sum>j<sk. at4 a i (bidx sk j) (bidx B b) (bidx h hh)
            * at4 v (bidx sk j) (bidx B b) (bidx h hh) d)
      = tabulate4 sq B h k (\<lambda>i b hh d. \<Sum>j<sk. at4 a i j b hh * at4 v j b hh d)"
    by (rule tabulate4_cong) (simp add: bidx_id)
  then show ?thesis using assms by (simp add: aggregate_def)
qed

lemma reshape_concat:
  assumes "length (data x) = s * b * h * k" "0 < s" "0 < b"
  shows "reshape x [int s, int b, - 1] = Inr (x\<lparr>shape := [s, b, h * k]\<rparr>)"
proof -
  have a: "nat (int s * int b) = s * b" by (simp add: nat_mult_distrib)
  have b: "s * b * h * k div (s * b) = h * k" using assms by (simp add: mult.assoc)
  have c: "s * b * h * k mod (s * b) = 0" by (simp add: mult.assoc)
  show ?thesis
    using assms a b c by (simp add: reshape_def infer_size_def)
qed

lemma reshape_concat_empty:
  assumes "s = 0 \<or> b = 0"
  shows "reshape x [int s, int b, - 1] = Inl RuntimeError"
  using assms by (auto simp add: reshape_def infer_size_def)

lemma off3_less:
  assumes "i < d0" "j < d1" "k < d2"
  shows "off3 d1 d2 i j k < d0 * d1 * d2"
  unfolding off3_def using assms by (intro ravel_less)

lemma bidx_less: "d = 1 \<or> d = n \<Longrightarrow> i < n \<Longrightarrow> bidx d i < d"
  by (auto simp: bidx_def)

lemma bdim_accept: "m = 1 \<or> m = n \<Longrightarrow> bdim n m = n"
  by (auto simp: bdim_def)

lemma masked_fill_4d:
  assumes "shape s = [si, sj, sb, sh]" "shape fill = [m0, m1, m2, m3]"
    "m0 = 1 \<or> m0 = si" "m1 = 1 \<or> m1 = sj" "m2 = 1 \<or> m2 = sb" "m3 = 1 \<or> m3 = sh"
  shows "masked_fill s fill v = Inr (tabulate4 si sj sb sh
      (\<lambda>i j b h. if data fill ! off4 m1 m2 m3 (bidx m0 i) (bidx m1 j) (bidx m2 b) (bidx m3 h)
                 then v else at4 s i j b h))"
proof -
  have ok: "list_all2 bcast_ok [si, sj, sb, sh] [m0, m1, m2, m3]"
    using assms(3-6) by (auto simp: bcast_ok_def)
  have bs: "map2 bdim [si, sj, sb, sh] [m0, m1, m2, m3] = [si, sj, sb, sh]"
    using assms(3-6) by (simp add: bdim_accept)
  have pl: "prod_list [si, sj, sb, sh] = si * sj * sb * sh" by (simp add: mult.assoc)
  have "(if data fill ! ravel [m0, m1, m2, m3] (map2 bidx [m0, m1, m2, m3] (unravel [si, sj, sb, sh] n))
          then v
          else data s ! ravel [si, sj, sb, sh] (map2 bidx [si, sj, sb, sh] (unravel [si, sj, sb, sh] n)))
      = (if data fill ! off4 m1 m2 m3 (bidx m0 (n div (sj * sb * sh))) (bidx m1 (n div (sb * sh) mod sj))
               (bidx m2 (n div sh mod sb)) (bidx m3 (n mod sh))
          then v
          else at4 s (n div (sj * sb * sh)) (n div (sb * sh) mod sj) (n div sh mod sb) (n mod sh))"
    if "n < si * sj * sb * sh" for n
    using unravel_4d_range [OF that] unfolding unravel_4d [OF that]
    by (simp add: ravel_4d bidx_id at4_def assms(1) del: ravel.simps)
  then have "\<lparr>shape = [si, sj, sb, sh],
        data = map (\<lambda>n.
          if data fill ! ravel [m0, m1, m2, m3] (map2 bidx [m0, m1, m2, m3] (unravel [si, sj, sb, sh] n))
          then v
          else data s ! ravel [si, sj, sb, sh] (map2 bidx [si, sj, sb, sh] (unravel [si, sj, sb, sh] n)))
          [0..<si * sj * sb * sh]\<rparr>
      = tabulate4 si sj sb sh
      (\<lambda>i j b h. if data fill ! off4 m1 m2 m3 (bidx m0 i) (bidx m1 j) (bidx m2 b) (bidx m3 h)
                 then v else at4 s i j b h)"
    by (rule tensor_eq_tabulate4)
  note eq = this
  have len: "max (length [si, sj, sb, sh]) (length [m0, m1, m2, m3]) = 4" by simp
  have pad: "replicate (4 - length [a, b, c, d]) (1::nat) @ [a, b, c, d] = [a, b, c, d]"
    for a b c d by simp
  show ?thesis
    unfolding masked_fill_def Let_def assms(1,2) len pad bs pl if_P [OF ok] eq
    by (rule refl)
qed

lemma masked_fill_ok:
  assumes "shape mk = [mq, mk1, mb]" "wf_tensor mk"
    "mq = 1 \<or> mq = sq" "mk1 = 1 \<or> mk1 = sk" "mb = 1 \<or> mb = B"
  shows "masked_fill (tabulate4 sq sk B h f) (eq_zero (mk\<lparr>shape := shape mk @ [1]\<rparr>)) v
     = Inr (tabulate4 sq sk B h (\<lambda>i j b hh.
          if at3 mk (bidx mq i) (bidx mk1 j) (bidx mb b) then f i j b hh else v))"
proof -
  have "tabulate4 sq sk B h (\<lambda>i j b hh.
           if map Not (data mk) ! off4 mk1 mb 1 (bidx mq i) (bidx mk1 j) (bidx mb b) (bidx 1 hh)
           then v else at4 (tabulate4 sq sk B h f) i j b hh)
      = tabulate4 sq sk B h (\<lambda>i j b hh.
          if at3 mk (bidx mq i) (bidx mk1 j) (bidx mb b) then f i j b hh else v)"
  proof (rule tabulate4_cong)
    fix i j b hh assume r: "i < sq" "j < sk" "b < B" "hh < h"
    have "off3 mk1 mb (bidx mq i) (bidx mk1 j) (bidx mb b) < mq * mk1 * mb"
      using assms r by (intro off3_less bidx_less)
    then have "off3 mk1 mb (bidx mq i) (bidx mk1 j) (bidx mb b) < length (data mk)"
      using assms by (simp add: wf_tensor_def)
    moreover have "off4 mk1 mb 1 (bidx mq i) (bidx mk1 j) (bidx mb b) (bidx 1 hh)
        = off3 mk1 mb (bidx mq i) (bidx mk1 j) (bidx mb b)"
      by (simp add: off4_def off3_def bidx_def)
    ultimately show "(if map Not (data mk) ! off4 mk1 mb 1 (bidx mq i) (bidx mk1 j) (bidx mb b) (bidx 1 hh)
           then v else at4 (tabulate4 sq sk B h f) i j b hh)
         = (if at3 mk (bidx mq i) (bidx mk1 j) (bidx mb b) then f i j b hh else v)"
      using r assms by (simp add: at4_tabulate4 at3_def)
  qed
  moreover have "masked_fill (tabulate4 sq sk B h f) (eq_zero (mk\<lparr>shape := shape mk @ [1]\<rparr>)) v
      = Inr (tabulate4 sq sk B h (\<lambda>i j b hh.
           if data (eq_zero (mk\<lparr>shape := shape mk @ [1]\<rparr>))
                ! off4 mk1 mb 1 (bidx mq i) (bidx mk1 j) (bidx mb b) (bidx 1 hh)
           then v else at4 (tabulate4 sq sk B h f) i j b hh))"
    using assms(3-5) by (intro masked_fill_4d) (simp_all add: eq_zero_def assms(1))
  ultimately show ?thesis
    by (simp add: eq_zero_def)
qed

lemma check_mask_ok:
  assumes "shape mk = [mq, mk1, mb]" "mq = 1 \<or> mq = mk1"
  shows "check_mask mk = Inr (mk\<lparr>shape := shape mk @ [1]\<rparr>)"
  using assms by (auto simp: check_mask_def)

lemma attention_ok:
  assumes "mha_dims m h k D" "shape q = [sq, B, D]" "shape kk = [sk, B, D]"
    "shape v = [sk, B, D]" "mask_accepted msk sq sk B"
  shows "\<exists>Q K V. prepare_call (query_prep m) q = Inr Q \<and> shape Q = [sq, B, h, k]
      \<and> prepare_call (key_prep m) kk = Inr K \<and> shape K = [sk, B, h, k]
      \<and> prepare_call (value_prep m) v = Inr V \<and> shape V = [sk, B, h, k]
      \<and> length (data V) = sk * B * h * k
      \<and> linear_call (p_linear (value_prep m)) v = Inr (V\<lparr>shape := [sk, B, h * k]\<rparr>)
      \<and> attention_weights m keep q kk v msk = Inr \<lparr>seq_len = sq, batch_size = B,
           debug_attn = tabulate4 sq sk B h (softmax_fn sk (scores_fn (scale m) k Q K msk)),
           dropped_attn = dropout (dropout_p m) (training m) keep
              (tabulate4 sq sk B h (softmax_fn sk (scores_fn (scale m) k Q K msk))),
           proj_value = V\<rparr>"
proof -
  have d: "prep_dims (query_prep m) h k D" "prep_dims (key_prep m) h k D"
    "prep_dims (value_prep m) h k D"
    using assms(1) by (simp_all add: mha_dims_def)
  obtain yq where yq: "prepare_call (query_prep m) q = Inr (yq\<lparr>shape := [sq, B, h, k]\<rparr>)"
    using prepare_call_ok [OF d(1) assms(2)] by blast
  obtain yk where yk: "prepare_call (key_prep m) kk = Inr (yk\<lparr>shape := [sk, B, h, k]\<rparr>)"
    using prepare_call_ok [OF d(2) assms(3)] by blast
  obtain yv where yv: "linear_call (p_linear (value_prep m)) v = Inr yv"
    "prepare_call (value_prep m) v = Inr (yv\<lparr>shape := [sk, B, h, k]\<rparr>)"
    "length (data yv) = sk * B * h * k" "shape yv = [sk, B, h * k]"
    using prepare_call_ok [OF d(3) assms(4)] by blast
  define Q where "Q = yq\<lparr>shape := [sq, B, h, k]\<rparr>"
  define K where "K = yk\<lparr>shape := [sk, B, h, k]\<rparr>"
  define V where "V = yv\<lparr>shape := [sk, B, h, k]\<rparr>"
  have sh: "shape Q = [sq, B, h, k]" "shape K = [sk, B, h, k]" "shape V = [sk, B, h, k]"
    "length (data V) = sk * B * h * k"
    using yv by (simp_all add: Q_def K_def V_def)
  have lv: "linear_call (p_linear (value_prep m)) v = Inr (V\<lparr>shape := [sk, B, h * k]\<rparr>)"
    using yv by (simp add: V_def)
  have gs: "get_scores Q K = Inr (tabulate4 sq sk B h
           (\<lambda>i j b hh. \<Sum>d<k. at4 Q i b hh d * at4 K j b hh d))"
    using sh(1,2) by (rule get_scores_ok)
  have aw: "attention_weights m keep q kk v msk = Inr \<lparr>seq_len = sq, batch_size = B,
           debug_attn = tabulate4 sq sk B h (softmax_fn sk (scores_fn (scale m) k Q K msk)),
           dropped_attn = dropout (dropout_p m) (training m) keep
              (tabulate4 sq sk B h (softmax_fn sk (scores_fn (scale m) k Q K msk))),
           proj_value = V\<rparr>"
  proof (cases msk)
    case None
    have "softmax_fn sk (scores_fn (scale m) k Q K None)
        = (\<lambda>i j b hh. exp ((\<Sum>d<k. at4 Q i b hh d * at4 K j b hh d) * scale m)
             / (\<Sum>j'<sk. exp ((\<Sum>d<k. at4 Q i b hh d * at4 K j' b hh d) * scale m)))"
      by (simp add: softmax_fn_def scores_fn_def fun_eq_iff)
    then show ?thesis
      using None assms(2) yq yk yv(2) gs
      by (simp add: attention_weights_def Q_def [symmetric] K_def [symmetric] V_def [symmetric]
          scale_scores_tabulate4 softmax_tabulate4)
  next
    case (Some mk)
    then obtain mq mk1 mb where ms: "shape mk = [mq, mk1, mb]" "wf_tensor mk"
      "mq = 1 \<or> mq = mk1" "mq = 1 \<or> mq = sq" "mk1 = 1 \<or> mk1 = sk" "mb = 1 \<or> mb = B"
      using assms(5) by (auto simp: mask_accepted_def split: list.splits)
    have cm: "check_mask mk = Inr (mk\<lparr>shape := shape mk @ [1]\<rparr>)"
      using ms(1,3) by (rule check_mask_ok)
    have mf: "masked_fill (tabulate4 sq sk B h
                (\<lambda>i j b hh. (\<Sum>d<k. at4 Q i b hh d * at4 K j b hh d) * scale m))
              (eq_zero (mk\<lparr>shape := shape mk @ [1]\<rparr>)) (- 1000000000)
        = Inr (tabulate4 sq sk B h (scores_fn (scale m) k Q K (Some mk)))"
    proof -
      have "scores_fn (scale m) k Q K (Some mk)
          = (\<lambda>i j b hh. if at3 mk (bidx mq i) (bidx mk1 j) (bidx mb b)
               then (\<Sum>d<k. at4 Q i b hh d * at4 K j b hh d) * scale m else - 1000000000)"
        using ms(1) by (simp add: scores_fn_def fun_eq_iff)
      then show ?thesis
        using masked_fill_ok [OF ms(1,2,4,5,6)] by simp
    qed
    have sm: "softmax_dim1 (tabulate4 sq sk B h (scores_fn (scale m) k Q K (Some mk)))
        = Inr (tabulate4 sq sk B h (softmax_fn sk (scores_fn (scale m) k Q K (Some mk))))"
      unfolding softmax_tabulate4 by (simp add: softmax_fn_def [abs_def])
    show ?thesis
      using Some assms(2) yq yk yv(2) gs cm mf sm
      by (simp add: attention_weights_def Q_def [symmetric] K_def [symmetric] V_def [symmetric]
          scale_scores_tabulate4)
  qed
  show ?thesis using yq yk yv(2) sh lv aw
    by (simp add: Q_def [symmetric] K_def [symmetric] V_def [symmetric])
qed

lemma forward_steps:
  assumes "mha_dims m h k D" "shape q = [sq, B, D]" "shape kk = [sk, B, D]"
    "shape v = [sk, B, D]" "mask_accepted msk sq sk B"
  shows "\<exists>Q K V A X. prepare_call (query_prep m) q = Inr Q \<and> shape Q = [sq, B, h, k]
      \<and> prepare_call (key_prep m) kk = Inr K \<and> shape K = [sk, B, h, k]
      \<and> shape V = [sk, B, h, k] \<and> length (data V) = sk * B * h * k
      \<and> linear_call (p_linear (value_prep m)) v = Inr (V\<lparr>shape := [sk, B, h * k]\<rparr>)
      \<and> A = tabulate4 sq sk B h (softmax_fn sk (scores_fn (scale m) k Q K msk))
      \<and> X = tabulate4 sq B h k (\<lambda>i b hh d. \<Sum>j<sk.
              at4 (dropout (dropout_p m) (training m) keep A) i j b hh * at4 V j b hh d)
      \<and> forward m keep q kk v msk =
          (m\<lparr>attn := Some (dropout (dropout_p m) (training m) keep A)\<rparr>, [A],
           (case reshape X [int sq, int B, - 1] of
              Inl e \<Rightarrow> Inl e
            | Inr y \<Rightarrow> linear_call (output_layer m) y))"
proof -
  obtain Q K V where a: "prepare_call (query_prep m) q = Inr Q" "shape Q = [sq, B, h, k]"
      "prepare_call (key_prep m) kk = Inr K" "shape K = [sk, B, h, k]"
      "shape V = [sk, B, h, k]" "length (data V) = sk * B * h * k"
      "linear_call (p_linear (value_prep m)) v = Inr (V\<lparr>shape := [sk, B, h * k]\<rparr>)"
      "attention_weights m keep q kk v msk = Inr \<lparr>seq_len = sq, batch_size = B,
           debug_attn = tabulate4 sq sk B h (softmax_fn sk (scores_fn (scale m) k Q K msk)),
           dropped_attn = dropout (dropout_p m) (training m) keep
              (tabulate4 sq sk B h (softmax_fn sk (scores_fn (scale m) k Q K msk))),
           proj_value = V\<rparr>"
    using attention_ok [OF assms, of keep] by blast
  define A where "A = tabulate4 sq sk B h (softmax_fn sk (scores_fn (scale m) k Q K msk))"
  have "shape (dropout (dropout_p m) (training m) keep A) = [sq, sk, B, h]"
    by (simp add: A_def)
  from aggregate_ok [OF this a(5)]
  have "forward m keep q kk v msk =
          (m\<lparr>attn := Some (dropout (dropout_p m) (training m) keep A)\<rparr>, [A],
           (case reshape (tabulate4 sq B h k (\<lambda>i b hh d. \<Sum>j<sk.
              at4 (dropout (dropout_p m) (training m) keep A) i j b hh * at4 V j b hh d))
               [int sq, int B, - 1] of
              Inl e \<Rightarrow> Inl e
            | Inr y \<Rightarrow> linear_call (output_layer m) y))"
    using a(8) by (simp add: forward_def A_def)
  then show ?thesis
    using a(1-7) A_def
    by (intro exI [of _ Q] exI [of _ K] exI [of _ V] exI [of _ A] exI conjI) simp_all
qed


lemma forward_valid:
  assumes "mha_dims m h k (h * k)" "shape q = [sq, B, h * k]" "shape kk = [sk, B, h * k]"
    "shape v = [sk, B, h * k]" "mask_accepted msk sq sk B" "0 < sq" "0 < B"
  shows "\<exists>Q K V A X out. prepare_call (query_prep m) q = Inr Q \<and> shape Q = [sq, B, h, k]
      \<and> prepare_call (key_prep m) kk = Inr K \<and> shape K = [sk, B, h, k]
      \<and> shape V = [sk, B, h, k] \<and> length (data V) = sk * B * h * k
      \<and> linear_call (p_linear (value_prep m)) v = Inr (V\<lparr>shape := [sk, B, h * k]\<rparr>)
      \<and> A = tabulate4 sq sk B h (softmax_fn sk (scores_fn (scale m) k Q K msk))
      \<and> X = tabulate4 sq B h k (\<lambda>i b hh d. \<Sum>j<sk.
              at4 (dropout (dropout_p m) (training m) keep A) i j b hh * at4 V j b hh d)
      \<and> linear_call (output_layer m) (X\<lparr>shape := [sq, B, h * k]\<rparr>) = Inr out
      \<and> shape out = [sq, B, h * k]
      \<and> forward m keep q kk v msk =
          (m\<lparr>attn := Some (dropout (dropout_p m) (training m) keep A)\<rparr>, [A], Inr out)"
proof -
  obtain Q K V A X where a: "prepare_call (query_prep m) q = Inr Q" "shape Q = [sq, B, h, k]"
      "prepare_call (key_prep m) kk = Inr K" "shape K = [sk, B, h, k]"
      "shape V = [sk, B, h, k]" "length (data V) = sk * B * h * k"
      "linear_call (p_linear (value_prep m)) v = Inr (V\<lparr>shape := [sk, B, h * k]\<rparr>)"
      "A = tabulate4 sq sk B h (softmax_fn sk (scores_fn (scale m) k Q K msk))"
      "X = tabulate4 sq B h k (\<lambda>i b hh d. \<Sum>j<sk.
              at4 (dropout (dropout_p m) (training m) keep A) i j b hh * at4 V j b hh d)"
      "forward m keep q kk v msk =
          (m\<lparr>attn := Some (dropout (dropout_p m) (training m) keep A)\<rparr>, [A],
           (case reshape X [int sq, int B, - 1] of
              Inl e \<Rightarrow> Inl e
            | Inr y \<Rightarrow> linear_call (output_layer m) y))"
    using forward_steps [OF assms(1-5), of keep] by (elim exE conjE) (rule that)
  have "length (data X) = sq * B * h * k" by (simp add: a(9))
  from reshape_concat [OF this assms(6,7)]
  have r: "reshape X [int sq, int B, - 1] = Inr (X\<lparr>shape := [sq, B, h * k]\<rparr>)" .
  have o: "in_features (output_layer m) = h * k" "out_features (output_layer m) = h * k"
    using assms(1) by (simp_all add: mha_dims_def)
  have "shape (X\<lparr>shape := [sq, B, h * k]\<rparr>) = [sq, B, h * k]" by simp
  from linear_call_3d [OF this o(1), unfolded o(2)] obtain out where
    out: "linear_call (output_layer m) (X\<lparr>shape := [sq, B, h * k]\<rparr>) = Inr out"
      "shape out = [sq, B, h * k]"
    by (elim exE conjE) (rule that)
  have fw: "forward m keep q kk v msk =
          (m\<lparr>attn := Some (dropout (dropout_p m) (training m) keep A)\<rparr>, [A], Inr out)"
    unfolding a(10) r using out(1) by simp
  show ?thesis
    by (intro exI [of _ Q] exI [of _ K] exI [of _ V] exI [of _ A] exI [of _ X] exI [of _ out] conjI)
      (rule a out fw)+
qed

lemma forward_indivisible:
  assumes "mha_dims m h k D" "D \<noteq> h * k" "shape q = [sq, B, D]" "shape kk = [sk, B, D]"
    "shape v = [sk, B, D]" "mask_accepted msk sq sk B"
  shows "snd (snd (forward m keep q kk v msk)) = Inl RuntimeError"
proof -
  obtain Q K V A X where a: "prepare_call (query_prep m) q = Inr Q" "shape Q = [sq, B, h, k]"
      "prepare_call (key_prep m) kk = Inr K" "shape K = [sk, B, h, k]"
      "shape V = [sk, B, h, k]" "length (data V) = sk * B * h * k"
      "linear_call (p_linear (value_prep m)) v = Inr (V\<lparr>shape := [sk, B, h * k]\<rparr>)"
      "A = tabulate4 sq sk B h (softmax_fn sk (scores_fn (scale m) k Q K msk))"
      "X = tabulate4 sq B h k (\<lambda>i b hh d. \<Sum>j<sk.
              at4 (dropout (dropout_p m) (training m) keep A) i j b hh * at4 V j b hh d)"
      "forward m keep q kk v msk =
          (m\<lparr>attn := Some (dropout (dropout_p m) (training m) keep A)\<rparr>, [A],
           (case reshape X [int sq, int B, - 1] of
              Inl e \<Rightarrow> Inl e
            | Inr y \<Rightarrow> linear_call (output_layer m) y))"
    using forward_steps [OF assms(1,3-6), of keep] by (elim exE conjE) (rule that)
  have len: "length (data X) = sq * B * h * k" by (simp add: a(9))
  show ?thesis
  proof (cases "sq = 0 \<or> B = 0")
    case True
    then show ?thesis using a(10) reshape_concat_empty [OF True, of X] by simp
  next
    case False
    then have "reshape X [int sq, int B, - 1] = Inr (X\<lparr>shape := [sq, B, h * k]\<rparr>)"
      using reshape_concat [OF len] by simp
    moreover have "linear_call (output_layer m) (X\<lparr>shape := [sq, B, h * k]\<rparr>) = Inl RuntimeError"
      using assms(1,2) by (intro linear_call_mismatch [of _ sq B "h * k"]) (auto simp: mha_dims_def)
    ultimately show ?thesis using a(10) by simp
  qed
qed

lemma construct_dims_divisible:
  assumes "MultiHeadAttention H dm p ub init = Inr m" "H * (dm div H) = dm"
  shows "mha_dims (m\<lparr>training := t, attn := a\<rparr>) (nat H) (nat (dm div H))
           (nat H * nat (dm div H))"
    and "nat dm = nat H * nat (dm div H)"
proof -
  have c: "0 < H" using construct_Inr [OF assms(1)] by simp
  show e: "nat dm = nat H * nat (dm div H)"
    using c assms(2) by (metis nat_mult_distrib less_imp_le)
  show "mha_dims (m\<lparr>training := t, attn := a\<rparr>) (nat H) (nat (dm div H))
           (nat H * nat (dm div H))"
    using construct_dims [OF assms(1), where t = t and a = a] unfolding e .
qed

subsection \<open>Shape of the result\<close>

text \<open>
  Claim C5. A module constructed with \<open>d_model\<close> divisible by \<open>heads\<close>, in either mode
  and whatever it retained before, returns a tensor of shape
  \<open>[seq_len_q, batch_size, d_model]\<close> for a query of shape \<open>[seq_len_q, batch_size, d_model]\<close>
  and a key and a value of shape \<open>[seq_len_k, batch_size, d_model]\<close>, without a mask or
  with a mask the call accepts. A valid input has at least one query position and one
  batch element: the final \<^verbatim>\<open>reshape(seq_len, batch_size, -1)\<close> cannot infer the last
  size of an empty tensor.
\<close>

theorem forward_output_shape:
  assumes "MultiHeadAttention H dm p ub init = Inr m0"
    and "H * (dm div H) = dm"
    and "m = m0\<lparr>training := t, attn := a\<rparr>"
    and "shape q = [sq, B, nat dm]" "shape kk = [sk, B, nat dm]" "shape v = [sk, B, nat dm]"
    and "0 < sq" "0 < B"
    and "mask_accepted msk sq sk B"
  shows "\<exists>out. snd (snd (forward m keep q kk v msk)) = Inr out \<and> shape out = [sq, B, nat dm]"
proof -
  note d = construct_dims_divisible [OF assms(1,2)]
  have "\<exists>Q K V A X out. prepare_call (query_prep m) q = Inr Q \<and> shape Q = [sq, B, nat H, nat (dm div H)]
      \<and> prepare_call (key_prep m) kk = Inr K \<and> shape K = [sk, B, nat H, nat (dm div H)]
      \<and> shape V = [sk, B, nat H, nat (dm div H)] \<and> length (data V) = sk * B * nat H * nat (dm div H)
      \<and> linear_call (p_linear (value_prep m)) v = Inr (V\<lparr>shape := [sk, B, nat H * nat (dm div H)]\<rparr>)
      \<and> A = tabulate4 sq sk B (nat H) (softmax_fn sk (scores_fn (scale m) (nat (dm div H)) Q K msk))
      \<and> X = tabulate4 sq B (nat H) (nat (dm div H)) (\<lambda>i b hh d. \<Sum>j<sk.
              at4 (dropout (dropout_p m) (training m) keep A) i j b hh * at4 V j b hh d)
      \<and> linear_call (output_layer m) (X\<lparr>shape := [sq, B, nat H * nat (dm div H)]\<rparr>) = Inr out
      \<and> shape out = [sq, B, nat H * nat (dm div H)]
      \<and> forward m keep q kk v msk =
          (m\<lparr>attn := Some (dropout (dropout_p m) (training m) keep A)\<rparr>, [A], Inr out)"
    using assms(4-9) unfolding assms(3) d(2)
    by (intro forward_valid [OF d(1) [where t = t and a = a]])
  then obtain A out where "shape out = [sq, B, nat H * nat (dm div H)]"
     "forward m keep q kk v msk =
          (m\<lparr>attn := Some (dropout (dropout_p m) (training m) keep A)\<rparr>, [A], Inr out)"
    by (elim exE conjE) (rule that)
  then show ?thesis unfolding d(2) by simp
qed


lemma construct_2_4:
  "\<exists>m0. MultiHeadAttention 2 4 (1 / 10) True ident_init = Inr m0"
proof -
  have c: "(0::int) < 2" "(2::int) \<le> 4" "(0::real) \<le> 1 / 10" "(1 / 10 :: real) \<le> 1"
    by simp_all
  show ?thesis unfolding construct_fields [OF c] by blast
qed

theorem forward_output_shape_witness:
  "\<exists>out. snd (snd (forward
       ((projr (MultiHeadAttention 2 4 (1 / 10) True ident_init))\<lparr>training := False, attn := None\<rparr>)
       keep_all
       \<lparr>shape = [2, 1, 4], data = [1, 0, 0, 0, 0, 1, 0, 0]\<rparr>
       \<lparr>shape = [2, 1, 4], data = [1, 0, 0, 0, 0, 1, 0, 0]\<rparr>
       \<lparr>shape = [2, 1, 4], data = [1, 0, 0, 0, 0, 1, 0, 0]\<rparr> None)) = Inr out
     \<and> shape out = [2, 1, 4]"
proof -
  obtain m0 where m0: "MultiHeadAttention 2 4 (1 / 10) True ident_init = Inr m0"
    using construct_2_4 by blast
  have e: "(2::int) * (4 div 2) = 4" by simp
  have s: "shape \<lparr>shape = [2, 1, 4], data = [1, 0, 0, 0, 0, 1, 0, 0::real]\<rparr> = [2, 1, nat 4]"
    by simp
  have "\<exists>out. snd (snd (forward (m0\<lparr>training := False, attn := None\<rparr>) keep_all
       \<lparr>shape = [2, 1, 4], data = [1, 0, 0, 0, 0, 1, 0, 0]\<rparr>
       \<lparr>shape = [2, 1, 4], data = [1, 0, 0, 0, 0, 1, 0, 0]\<rparr>
       \<lparr>shape = [2, 1, 4], data = [1, 0, 0, 0, 0, 1, 0, 0]\<rparr> None)) = Inr out
     \<and> shape out = [2, 1, nat 4]"
    by (rule forward_output_shape [OF m0 e refl s s s]) (simp_all add: mask_accepted_def)
  then show ?thesis by (simp add: m0)
qed

subsection \<open>Construction with a width that the head count does not divide\<close>

text \<open>
  Claim C2 says that construction fails when \<open>heads * d_k \<noteq> d_model\<close>. The constructor
  has no such check: with 3 heads and \<open>d_model = 4\<close> it returns a module with
  \<open>d_k = 1\<close>.
\<close>

theorem construction_accepts_indivisible_counterexample:
  "\<not> isl (MultiHeadAttention 3 4 (1 / 10) True ident_init)
     \<and> d_k (projr (MultiHeadAttention 3 4 (1 / 10) True ident_init)) = 1
     \<and> (3::int) * 1 \<noteq> 4"
proof -
  have c: "(0::int) < 3" "(3::int) \<le> 4" "(0::real) \<le> 1 / 10" "(1 / 10 :: real) \<le> 1"
    by simp_all
  show ?thesis unfolding construct_fields [OF c] by simp
qed

text \<open>
  Claim C2, amended. When \<open>heads\<close> does not divide \<open>d_model\<close>, construction succeeds
  exactly when \<open>1 \<le> heads \<le> d_model\<close> and the dropout probability lies in \<open>[0, 1]\<close>;
  the module then has \<open>d_k = d_model div heads\<close> (floor division), and every forward call
  on a query of shape \<open>[seq_len_q, batch_size, d_model]\<close> and a key and a value of shape
  \<open>[seq_len_k, batch_size, d_model]\<close> raises a \<^verbatim>\<open>RuntimeError\<close>: the concatenated heads
  have width \<open>heads * d_k\<close>, which the output layer does not take. Outside that range of
  \<open>heads\<close> and of the probability the constructor raises.
\<close>

theorem construction_floor_division:
  assumes "H * (dm div H) \<noteq> dm"
    and "shape q = [sq, B, nat dm]" "shape kk = [sk, B, nat dm]" "shape v = [sk, B, nat dm]"
    and "mask_accepted msk sq sk B"
  shows "if 0 < H \<and> H \<le> dm \<and> 0 \<le> p \<and> p \<le> 1
         then \<exists>m. MultiHeadAttention H dm p ub init = Inr m \<and> d_k m = dm div H \<and> heads m = H
                \<and> snd (snd (forward (m\<lparr>training := t, attn := a\<rparr>) keep q kk v msk))
                    = Inl RuntimeError
         else isl (MultiHeadAttention H dm p ub init)"
proof (cases "0 < H \<and> H \<le> dm \<and> 0 \<le> p \<and> p \<le> 1")
  case True
  then have c: "0 < H" "H \<le> dm" "0 \<le> p" "p \<le> 1" by simp_all
  obtain m where m: "MultiHeadAttention H dm p ub init = Inr m"
    unfolding construct_fields [OF c] by blast
  have f: "d_k m = dm div H" "heads m = H"
    using m unfolding construct_fields [OF c] by auto
  have "nat H * nat (dm div H) = nat (H * (dm div H))"
    using c by (simp add: nat_mult_distrib)
  moreover have "0 \<le> H * (dm div H)"
    using c by (simp add: pos_imp_zdiv_nonneg_iff)
  ultimately have ne: "nat dm \<noteq> nat H * nat (dm div H)"
    using assms(1) c by auto
  have "snd (snd (forward (m\<lparr>training := t, attn := a\<rparr>) keep q kk v msk)) = Inl RuntimeError"
    using construct_dims [OF m] ne assms(2-5) by (rule forward_indivisible)
  then have "\<exists>m. MultiHeadAttention H dm p ub init = Inr m \<and> d_k m = dm div H \<and> heads m = H
                \<and> snd (snd (forward (m\<lparr>training := t, attn := a\<rparr>) keep q kk v msk))
                    = Inl RuntimeError"
    using m f by blast
  then show ?thesis unfolding if_P [OF True] .
next
  case False
  have "isl (MultiHeadAttention H dm p ub init)"
  proof (cases "MultiHeadAttention H dm p ub init")
    case (Inl e)
    then show ?thesis by simp
  next
    case (Inr m)
    from construct_Inr [OF this] False show ?thesis by simp
  qed
  then show ?thesis unfolding if_not_P [OF False] .
qed

theorem construction_floor_division_witness:
  "\<exists>m. MultiHeadAttention 3 4 (1 / 10) True ident_init = Inr m \<and> d_k m = 4 div 3 \<and> heads m = 3
      \<and> snd (snd (forward (m\<lparr>training := False, attn := None\<rparr>) keep_all
            \<lparr>shape = [1, 1, 4], data = [1, 2, 3, 4]\<rparr>
            \<lparr>shape = [1, 1, 4], data = [1, 2, 3, 4]\<rparr>
            \<lparr>shape = [1, 1, 4], data = [1, 2, 3, 4]\<rparr> None)) = Inl RuntimeError"
proof -
  have e: "(3::int) * (4 div 3) \<noteq> 4" by simp
  have s: "shape \<lparr>shape = [1, 1, 4], data = [1, 2, 3, 4::real]\<rparr> = [1, 1, nat 4]"
    by simp
  have ma: "mask_accepted None 1 1 1" by (simp add: mask_accepted_def)
  from construction_floor_division [OF e s s s ma, where p = "1 / 10" and ub = True and init = ident_init
      and t = False and a = None and keep = keep_all]
  show ?thesis by simp
qed

subsection \<open>Determinism without dropout\<close>

lemma attention_weights_attn_update:
  "attention_weights (m\<lparr>attn := a\<rparr>) keep q kk v msk = attention_weights m keep q kk v msk"
  by (simp add: attention_weights_def cong: list.case_cong sum.case_cong option.case_cong)

lemma attention_weights_no_dropout:
  assumes "dropout_p m = 0 \<or> \<not> training m"
  shows "attention_weights m keep1 q kk v msk = attention_weights m keep2 q kk v msk"
proof -
  have "dropout (dropout_p m) (training m) keep1 x = dropout (dropout_p m) (training m) keep2 x"
    for x using assms by (simp add: dropout_off)
  then show ?thesis
    by (simp add: attention_weights_def cong: list.case_cong sum.case_cong option.case_cong)
qed

text \<open>
  Claim C8. With dropout disabled (probability zero, or evaluation mode) the tensors handed
  to the observer and the outcome of a call are the same for the same module parameters,
  inputs and mask, whatever the randomness source draws and whatever the module retained
  from an earlier call; a call that returns also leaves the module in the same state.
\<close>

theorem forward_deterministic_without_dropout:
  assumes "dropout_p m = 0 \<or> \<not> training m"
  shows "snd (forward m keep1 q kk v msk) = snd (forward (m\<lparr>attn := a\<rparr>) keep2 q kk v msk)
    \<and> (if isl (snd (snd (forward m keep1 q kk v msk))) then True
        else fst (forward m keep1 q kk v msk) = fst (forward (m\<lparr>attn := a\<rparr>) keep2 q kk v msk))"
proof -
  have e: "attention_weights (m\<lparr>attn := a\<rparr>) keep2 q kk v msk
      = attention_weights m keep1 q kk v msk"
    using attention_weights_no_dropout [OF assms, of keep2 q kk v msk keep1]
    by (simp add: attention_weights_attn_update)
  show ?thesis
    unfolding forward_def e
    by (simp split: sum.splits cong: sum.case_cong)
qed


theorem forward_deterministic_without_dropout_witness:
  "snd (forward (eval_mode (projr (MultiHeadAttention 2 4 (1 / 10) True ident_init))) keep_all
       \<lparr>shape = [2, 1, 4], data = [1, 0, 0, 0, 0, 1, 0, 0]\<rparr>
       \<lparr>shape = [2, 1, 4], data = [1, 0, 0, 0, 0, 1, 0, 0]\<rparr>
       \<lparr>shape = [2, 1, 4], data = [1, 0, 0, 0, 0, 1, 0, 0]\<rparr> None)
   = snd (forward ((eval_mode (projr (MultiHeadAttention 2 4 (1 / 10) True ident_init)))\<lparr>attn := None\<rparr>)
       drop_all
       \<lparr>shape = [2, 1, 4], data = [1, 0, 0, 0, 0, 1, 0, 0]\<rparr>
       \<lparr>shape = [2, 1, 4], data = [1, 0, 0, 0, 0, 1, 0, 0]\<rparr>
       \<lparr>shape = [2, 1, 4], data = [1, 0, 0, 0, 0, 1, 0, 0]\<rparr> None)"
proof -
  have h: "dropout_p (eval_mode (projr (MultiHeadAttention 2 4 (1 / 10) True ident_init))) = 0
      \<or> \<not> training (eval_mode (projr (MultiHeadAttention 2 4 (1 / 10) True ident_init)))"
    by (simp add: eval_mode_def)
  from forward_deterministic_without_dropout [OF h] show ?thesis by blast
qed

subsection \<open>The observed and the retained attention weights\<close>

lemmas eval_defs = forward_def attention_weights_def prepare_call_def linear_call_def reshape_def
  infer_size_def get_scores_def tabulate4_def at4_def off4_def scale_scores_def softmax_dim1_def
  dropout_def aggregate_def bcast_ok_def bdim_def bidx_def ident_init_def ident_linear_def

lemma construct_1_1:
  "MultiHeadAttention 1 1 (1 / 2) True ident_init =
     Inr \<lparr>d_k = 1, heads = 1,
          query_prep = \<lparr>p_linear = \<lparr>in_features = 1, out_features = 1,
              weight = fst ident_linear, bias = Some (snd ident_linear)\<rparr>, p_heads = 1, p_d_k = 1\<rparr>,
          key_prep = \<lparr>p_linear = \<lparr>in_features = 1, out_features = 1,
              weight = fst ident_linear, bias = Some (snd ident_linear)\<rparr>, p_heads = 1, p_d_k = 1\<rparr>,
          value_prep = \<lparr>p_linear = \<lparr>in_features = 1, out_features = 1,
              weight = fst ident_linear, bias = Some (snd ident_linear)\<rparr>, p_heads = 1, p_d_k = 1\<rparr>,
          output_layer = \<lparr>in_features = 1, out_features = 1,
             weight = fst ident_linear, bias = Some (snd ident_linear)\<rparr>,
          dropout_p = 1 / 2, training = True, scale = 1, attn = None\<rparr>"
proof -
  have c: "(0::int) < 1" "(1::int) \<le> 1" "(0::real) \<le> 1 / 2" "(1 / 2 :: real) \<le> 1"
    by simp_all
  show ?thesis unfolding construct_fields [OF c] by (simp add: ident_init_def)
qed

lemma forward_1_1_dropped:
  "forward (projr (MultiHeadAttention 1 1 (1 / 2) True ident_init)) drop_all
      \<lparr>shape = [1, 1, 1], data = [1]\<rparr> \<lparr>shape = [1, 1, 1], data = [1]\<rparr>
      \<lparr>shape = [1, 1, 1], data = [1]\<rparr> None
   = ((projr (MultiHeadAttention 1 1 (1 / 2) True ident_init))
         \<lparr>attn := Some \<lparr>shape = [1, 1, 1, 1], data = [0]\<rparr>\<rparr>,
      [\<lparr>shape = [1, 1, 1, 1], data = [1]\<rparr>],
      Inr \<lparr>shape = [1, 1, 1], data = [0]\<rparr>)"
  unfolding construct_1_1
  by (simp add: eval_defs)






subsection \<open>Softmax along the key positions\<close>

lemma softmax_fn_sum:
  assumes "0 < sk"
  shows "(\<Sum>j<sk. softmax_fn sk S i j b h) = 1"
proof -
  have "{..<sk} \<noteq> {}" using assms by auto
  then have pos: "0 < (\<Sum>j<sk. exp (S i j b h))"
    by (intro sum_pos) simp_all
  have "(\<Sum>j<sk. softmax_fn sk S i j b h)
      = (\<Sum>j<sk. exp (S i j b h)) / (\<Sum>j<sk. exp (S i j b h))"
    unfolding softmax_fn_def by (rule sum_divide_distrib [symmetric])
  then show ?thesis using pos by simp
qed

lemma sum_at4_tabulate4:
  assumes "i < d0" "b < d2" "h < d3"
  shows "(\<Sum>j<d1. at4 (tabulate4 d0 d1 d2 d3 f) i j b h) = (\<Sum>j<d1. f i j b h)"
  using assms by (intro sum.cong) (simp_all add: at4_tabulate4)

text \<open>
  Claim C3. Without a mask and with dropout disabled, a call on a query of shape
  \<open>[seq_len_q, batch_size, d_model]\<close> and a key and a value of shape
  \<open>[seq_len_k, batch_size, d_model]\<close> with at least one key position hands the observer,
  and stores, a tensor \<open>A\<close> of shape \<open>[seq_len_q, seq_len_k, batch_size, heads]\<close> whose
  entries over the key position \<open>j\<close> sum to 1 for every \<open>(i, b, h)\<close>: the entry at
  \<open>(i, j, b, h)\<close> is the exponential of the scaled score divided by the sum of the
  exponentials over the key positions. The elements are reals, so the sum is exactly 1.
\<close>

theorem attention_rows_sum_to_one:
  assumes "MultiHeadAttention H dm p ub init = Inr m0"
    and "m = m0\<lparr>training := t, attn := a\<rparr>"
    and "dropout_p m = 0 \<or> \<not> training m"
    and "shape q = [sq, B, nat dm]" "shape kk = [sk, B, nat dm]" "shape v = [sk, B, nat dm]"
    and "0 < sk"
    and "i < sq" "b < B" "hh < nat H"
  shows "\<exists>A r Q K. forward m keep q kk v None = (m\<lparr>attn := Some A\<rparr>, [A], r)
      \<and> shape A = [sq, sk, B, nat H]
      \<and> (\<Sum>j<sk. at4 A i j b hh) = 1
      \<and> prepare_call (query_prep m) q = Inr Q \<and> prepare_call (key_prep m) kk = Inr K
      \<and> (\<forall>j<sk. at4 A i j b hh
            = exp (scores_fn (scale m) (nat (dm div H)) Q K None i j b hh)
              / (\<Sum>j'<sk. exp (scores_fn (scale m) (nat (dm div H)) Q K None i j' b hh)))"
proof -
  have d: "mha_dims m (nat H) (nat (dm div H)) (nat dm)"
    unfolding assms(2) by (rule construct_dims [OF assms(1)])
  have ma: "mask_accepted None sq sk B" by (simp add: mask_accepted_def)
  obtain Q K V A X where s: "prepare_call (query_prep m) q = Inr Q"
      "prepare_call (key_prep m) kk = Inr K"
      "A = tabulate4 sq sk B (nat H) (softmax_fn sk (scores_fn (scale m) (nat (dm div H)) Q K None))"
      "forward m keep q kk v None =
          (m\<lparr>attn := Some (dropout (dropout_p m) (training m) keep A)\<rparr>, [A],
           (case reshape X [int sq, int B, - 1] of
              Inl e \<Rightarrow> Inl e
            | Inr y \<Rightarrow> linear_call (output_layer m) (y :: real tensor)))"
    using forward_steps [OF d assms(4-6) ma, of keep] by (elim exE conjE) (rule that)
  have off: "dropout (dropout_p m) (training m) keep A = A"
    using assms(3) by (rule dropout_off)
  have sh: "shape A = [sq, sk, B, nat H]" by (simp add: s(3))
  have "(\<Sum>j<sk. at4 A i j b hh)
      = (\<Sum>j<sk. softmax_fn sk (scores_fn (scale m) (nat (dm div H)) Q K None) i j b hh)"
    unfolding s(3) using assms(8-10) by (rule sum_at4_tabulate4)
  then have one: "(\<Sum>j<sk. at4 A i j b hh) = 1"
    using softmax_fn_sum [OF assms(7)] by simp
  have el: "\<forall>j<sk. at4 A i j b hh
            = exp (scores_fn (scale m) (nat (dm div H)) Q K None i j b hh)
              / (\<Sum>j'<sk. exp (scores_fn (scale m) (nat (dm div H)) Q K None i j' b hh))"
    unfolding s(3) using assms(8-10) by (simp add: at4_tabulate4 softmax_fn_def)
  have fw: "forward m keep q kk v None = (m\<lparr>attn := Some A\<rparr>, [A],
           (case reshape X [int sq, int B, - 1] of
              Inl e \<Rightarrow> Inl e
            | Inr y \<Rightarrow> linear_call (output_layer m) y))"
    using s(4) unfolding off .
  show ?thesis
    by (intro exI [of _ A] exI [of _ Q] exI [of _ K] exI conjI) (rule fw sh one s(1) s(2) el)+
qed

theorem attention_rows_sum_to_one_witness:
  "\<exists>A r Q K. forward
       ((projr (MultiHeadAttention 2 4 (1 / 10) True ident_init))\<lparr>training := False, attn := None\<rparr>)
       keep_all
       \<lparr>shape = [2, 1, 4], data = [1, 0, 0, 0, 0, 1, 0, 0]\<rparr>
       \<lparr>shape = [2, 1, 4], data = [1, 0, 0, 0, 0, 1, 0, 0]\<rparr>
       \<lparr>shape = [2, 1, 4], data = [1, 0, 0, 0, 0, 1, 0, 0]\<rparr> None
     = ((projr (MultiHeadAttention 2 4 (1 / 10) True ident_init))\<lparr>training := False, attn := Some A\<rparr>,
        [A], r)
    \<and> shape A = [2, 2, 1, 2]
    \<and> at4 A 1 0 0 1 + at4 A 1 1 0 1 = 1"
proof -
  obtain m0 where m0: "MultiHeadAttention 2 4 (1 / 10) True ident_init = Inr m0"
    using construct_2_4 by blast
  have s: "shape \<lparr>shape = [2, 1, 4], data = [1, 0, 0, 0, 0, 1, 0, 0::real]\<rparr> = [2, 1, nat 4]"
    by simp
  have h: "dropout_p (m0\<lparr>training := False, attn := None\<rparr>) = 0
      \<or> \<not> training (m0\<lparr>training := False, attn := None\<rparr>)" by simp
  have r: "(0::nat) < 2" "(1::nat) < 2" "(0::nat) < 1" "(1::nat) < nat 2" by simp_all
  from attention_rows_sum_to_one [OF m0 refl h s s s r, of keep_all]
  show ?thesis unfolding m0 by (auto simp: lessThan_Suc numeral_2_eq_2)
qed

subsection \<open>A single query and a single key\<close>

lemma softmax_fn_single: "softmax_fn (Suc 0) S i 0 b h = 1"
  by (simp add: softmax_fn_def)

lemma aggregate_single_key:
  assumes "shape V = [1, B, h, k]" "length (data V) = 1 * B * h * k"
  shows "tabulate4 1 B h k (\<lambda>i b hh d. \<Sum>j<1.
            at4 (tabulate4 1 1 B h (softmax_fn 1 S)) i j b hh * at4 V j b hh d) = V"
proof -
  have "tabulate4 1 B h k (\<lambda>i b hh d. \<Sum>j<1.
            at4 (tabulate4 1 1 B h (softmax_fn 1 S)) i j b hh * at4 V j b hh d)
      = tabulate4 1 B h k (at4 V)"
    by (rule tabulate4_cong) (simp add: at4_tabulate4 softmax_fn_single)
  moreover have "wf_tensor V" using assms by (simp add: wf_tensor_def)
  ultimately show ?thesis using tabulate4_at4 [OF assms(1)] by simp
qed

text \<open>
  Claim C6, amended by the condition that dropout is disabled. With one query and one key
  position, dropout disabled, and no mask or a mask the call accepts (even one that masks
  the key), every attention weight is 1 and the returned tensor is the output layer
  applied to the linear projection of the value.
\<close>

theorem single_key_output_is_projected_value:
  assumes "MultiHeadAttention H dm p ub init = Inr m0"
    and "H * (dm div H) = dm"
    and "m = m0\<lparr>training := t, attn := a\<rparr>"
    and "dropout_p m = 0 \<or> \<not> training m"
    and "shape q = [1, B, nat dm]" "shape kk = [1, B, nat dm]" "shape v = [1, B, nat dm]"
    and "0 < B"
    and "mask_accepted msk 1 1 B"
  shows "\<exists>A yv out. forward m keep q kk v msk = (m\<lparr>attn := Some A\<rparr>, [A], Inr out)
      \<and> shape A = [1, 1, B, nat H]
      \<and> (\<forall>b<B. \<forall>hh<nat H. at4 A 0 0 b hh = 1)
      \<and> linear_call (p_linear (value_prep m)) v = Inr yv
      \<and> linear_call (output_layer m) yv = Inr out"
proof -
  note d = construct_dims_divisible [OF assms(1,2)]
  define h where "h = nat H"
  define k where "k = nat (dm div H)"
  have dm: "nat dm = h * k" using d(2) by (simp add: h_def k_def)
  have md: "mha_dims m h k (h * k)"
    unfolding assms(3) h_def k_def by (rule d(1))
  have one: "(0::nat) < 1" by simp
  obtain Q K V A X out where s: "shape V = [1, B, h, k]" "length (data V) = 1 * B * h * k"
      "linear_call (p_linear (value_prep m)) v = Inr (V\<lparr>shape := [1, B, h * k]\<rparr>)"
      "A = tabulate4 1 1 B h (softmax_fn 1 (scores_fn (scale m) k Q K msk))"
      "X = tabulate4 1 B h k (\<lambda>i b hh d. \<Sum>j<1.
              at4 (dropout (dropout_p m) (training m) keep A) i j b hh * at4 V j b hh d)"
      "linear_call (output_layer m) (X\<lparr>shape := [1, B, h * k]\<rparr>) = Inr out"
      "forward m keep q kk v msk =
          (m\<lparr>attn := Some (dropout (dropout_p m) (training m) keep A)\<rparr>, [A], Inr out)"
    using forward_valid [OF md assms(5-7) [unfolded dm] assms(9) one assms(8), of keep]
    by (elim exE conjE) (rule that)
  have off: "dropout (dropout_p m) (training m) keep A = A"
    using assms(4) by (rule dropout_off)
  have XV: "X = V"
    unfolding s(5) off unfolding s(4) using s(1,2) by (rule aggregate_single_key)
  have fw: "forward m keep q kk v msk = (m\<lparr>attn := Some A\<rparr>, [A], Inr out)"
    using s(7) unfolding off .
  have sh: "shape A = [1, 1, B, nat H]" by (simp add: s(4) h_def)
  have w: "\<forall>b<B. \<forall>hh<nat H. at4 A 0 0 b hh = 1"
    unfolding s(4) h_def [symmetric] by (simp add: at4_tabulate4 softmax_fn_single)
  have o: "linear_call (output_layer m) (V\<lparr>shape := [1, B, h * k]\<rparr>) = Inr out"
    using s(6) unfolding XV .
  show ?thesis
    by (intro exI [of _ A] exI [of _ "V\<lparr>shape := [1, B, h * k]\<rparr>"] exI [of _ out] conjI)
      (rule fw sh w s(3) o)+
qed


theorem single_key_output_is_projected_value_witness:
  "\<exists>A yv out. forward
       ((projr (MultiHeadAttention 2 4 (1 / 10) True ident_init))\<lparr>training := False, attn := None\<rparr>)
       keep_all
       \<lparr>shape = [1, 1, 4], data = [1, 2, 3, 4]\<rparr> \<lparr>shape = [1, 1, 4], data = [1, 2, 3, 4]\<rparr>
       \<lparr>shape = [1, 1, 4], data = [1, 2, 3, 4]\<rparr> None
     = ((projr (MultiHeadAttention 2 4 (1 / 10) True ident_init))\<lparr>training := False, attn := Some A\<rparr>,
        [A], Inr out)
    \<and> shape A = [1, 1, 1, 2]
    \<and> at4 A 0 0 0 0 = 1 \<and> at4 A 0 0 0 1 = 1
    \<and> linear_call (p_linear (value_prep (projr (MultiHeadAttention 2 4 (1 / 10) True ident_init))))
          \<lparr>shape = [1, 1, 4], data = [1, 2, 3, 4]\<rparr> = Inr yv
    \<and> linear_call (output_layer (projr (MultiHeadAttention 2 4 (1 / 10) True ident_init))) yv = Inr out"
proof -
  obtain m0 where m0: "MultiHeadAttention 2 4 (1 / 10) True ident_init = Inr m0"
    using construct_2_4 by blast
  have e: "(2::int) * (4 div 2) = 4" by simp
  have s: "shape \<lparr>shape = [1, 1, 4], data = [1, 2, 3, 4::real]\<rparr> = [1, 1, nat 4]"
    by simp
  have h: "dropout_p (m0\<lparr>training := False, attn := None\<rparr>) = 0
      \<or> \<not> training (m0\<lparr>training := False, attn := None\<rparr>)" by simp
  have b: "(0::nat) < 1" by simp
  have ma: "mask_accepted None 1 1 1" by (simp add: mask_accepted_def)
  from single_key_output_is_projected_value [OF m0 e refl h s s s b ma, of keep_all]
  show ?thesis unfolding m0 by (auto simp: numeral_2_eq_2 less_Suc_eq)
qed

text \<open>
  Claim C6 as stated covers a module in training mode. There the single weight is 1 after
  the softmax, but dropout replaces it: with probability \<open>1/2\<close> and a draw that drops the
  weight the stored weight is 0 and the output is 0, while the output transform of the
  projected value is 1.
\<close>

theorem single_key_output_is_projected_value_counterexample:
  "snd (snd (forward (projr (MultiHeadAttention 1 1 (1 / 2) True ident_init)) drop_all
      \<lparr>shape = [1, 1, 1], data = [1]\<rparr> \<lparr>shape = [1, 1, 1], data = [1]\<rparr>
      \<lparr>shape = [1, 1, 1], data = [1]\<rparr> None))
    = Inr \<lparr>shape = [1, 1, 1], data = [0]\<rparr>
   \<and> attn (fst (forward (projr (MultiHeadAttention 1 1 (1 / 2) True ident_init)) drop_all
      \<lparr>shape = [1, 1, 1], data = [1]\<rparr> \<lparr>shape = [1, 1, 1], data = [1]\<rparr>
      \<lparr>shape = [1, 1, 1], data = [1]\<rparr> None))
    = Some \<lparr>shape = [1, 1, 1, 1], data = [0]\<rparr>
   \<and> linear_call (p_linear (value_prep (projr (MultiHeadAttention 1 1 (1 / 2) True ident_init))))
        \<lparr>shape = [1, 1, 1], data = [1]\<rparr>
    = Inr \<lparr>shape = [1, 1, 1], data = [1]\<rparr>
   \<and> linear_call (output_layer (projr (MultiHeadAttention 1 1 (1 / 2) True ident_init)))
        \<lparr>shape = [1, 1, 1], data = [1]\<rparr>
    = Inr \<lparr>shape = [1, 1, 1], data = [1]\<rparr>"
  unfolding forward_1_1_dropped
  unfolding construct_1_1
  by (simp add: linear_call_def ident_linear_def)

subsection \<open>Masked key positions\<close>







subsection \<open>Splitting into heads and concatenating them\<close>

lemma aggregate_identity:
  assumes "shape y = [s, b, h, k]" "length (data y) = s * b * h * k"
  shows "aggregate (identity_attn s b h) y = Inr y"
proof -
  have "shape (identity_attn s b h) = [s, s, b, h]"
    by (simp add: identity_attn_def)
  from aggregate_ok [OF this assms(1)]
  have "aggregate (identity_attn s b h) y = Inr (tabulate4 s b h k
           (\<lambda>i bb hh d. \<Sum>j<s. at4 (identity_attn s b h) i j bb hh * at4 y j bb hh d))" .
  moreover have "tabulate4 s b h k
           (\<lambda>i bb hh d. \<Sum>j<s. at4 (identity_attn s b h) i j bb hh * at4 y j bb hh d)
      = tabulate4 s b h k (at4 y)"
  proof (rule tabulate4_cong)
    fix i bb hh d assume r: "i < s" "bb < b" "hh < h" "d < k"
    have "(\<Sum>j<s. at4 (identity_attn s b h) i j bb hh * at4 y j bb hh d)
        = (\<Sum>j<s. (if i = j then 1 else 0) * at4 y j bb hh d)"
      using r by (intro sum.cong) (simp_all add: identity_attn_def at4_tabulate4)
    also have "\<dots> = (\<Sum>j<s. if i = j then at4 y j bb hh d else 0)"
      by (intro sum.cong) simp_all
    also have "\<dots> = at4 y i bb hh d"
      using r by (simp add: sum.delta')
    finally show "(\<Sum>j<s. at4 (identity_attn s b h) i j bb hh * at4 y j bb hh d)
        = at4 y i bb hh d" .
  qed
  moreover have "tabulate4 s b h k (at4 y) = y"
    using assms by (intro tabulate4_at4) (simp_all add: wf_tensor_def)
  ultimately show ?thesis by simp
qed

text \<open>
  Claim C7. For a projection with \<open>h\<close> heads of \<open>k\<close> features and an input of shape
  \<open>[seq_len, batch_size, d_model]\<close> with at least one position and one batch element, let
  \<open>y0\<close> be the output of the linear transform, of shape \<open>[seq_len, batch_size, h * k]\<close>.
  The head split gives \<open>y\<close> of shape \<open>[seq_len, batch_size, h, k]\<close> with the same elements
  in the same order, the element of head \<open>hh\<close> and feature \<open>d\<close> being the element
  \<open>hh * k + d\<close> of the position's vector; aggregation with identity attention weights
  returns \<open>y\<close>; and the head concatenation \<^verbatim>\<open>reshape(seq_len, batch_size, -1)\<close> gives
  back \<open>y0\<close>.
\<close>

theorem head_split_concat_roundtrip:
  assumes "prep_dims p h k D" "shape x = [s, b, D]" "0 < s" "0 < b"
  shows "\<exists>y0 y. linear_call (p_linear p) x = Inr y0 \<and> shape y0 = [s, b, h * k]
     \<and> prepare_call p x = Inr y \<and> shape y = [s, b, h, k] \<and> data y = data y0
     \<and> (\<forall>i<s. \<forall>j<b. \<forall>hh<h. \<forall>d<k. at4 y i j hh d = at3 y0 i j (hh * k + d))
     \<and> aggregate (identity_attn s b h) y = Inr y
     \<and> reshape y [int s, int b, - 1] = Inr y0"
proof -
  obtain y0 where y: "linear_call (p_linear p) x = Inr y0"
     "prepare_call p x = Inr (y0\<lparr>shape := [s, b, h, k]\<rparr>)"
     "length (data y0) = s * b * h * k" "shape y0 = [s, b, h * k]"
    using prepare_call_ok [OF assms(1,2)] by (elim exE conjE) (rule that)
  define y where "y = y0\<lparr>shape := [s, b, h, k]\<rparr>"
  have sy: "shape y = [s, b, h, k]" and dy: "data y = data y0" and ly: "length (data y) = s * b * h * k"
    using y(3) by (simp_all add: y_def)
  have el: "\<forall>i<s. \<forall>j<b. \<forall>hh<h. \<forall>d<k. at4 y i j hh d = at3 y0 i j (hh * k + d)"
    by (simp add: at4_def at3_def off4_def off3_def sy dy y(4) algebra_simps)
  have ag: "aggregate (identity_attn s b h) y = Inr y"
    using sy ly by (rule aggregate_identity)
  have "reshape y [int s, int b, - 1] = Inr (y\<lparr>shape := [s, b, h * k]\<rparr>)"
    using ly assms(3,4) by (rule reshape_concat)
  moreover have "y\<lparr>shape := [s, b, h * k]\<rparr> = y0"
    using y(4) by (simp add: y_def)
  ultimately have rs: "reshape y [int s, int b, - 1] = Inr y0" by simp
  have pc: "prepare_call p x = Inr y" using y(2) by (simp add: y_def)
  show ?thesis
    by (intro exI [of _ y0] exI [of _ y] conjI) (rule y(1) y(4) pc sy dy el ag rs)+
qed


theorem head_split_concat_roundtrip_witness:
  "\<exists>y0 y. linear_call (p_linear (query_prep (projr (MultiHeadAttention 2 4 (1 / 10) True ident_init))))
         \<lparr>shape = [1, 1, 4], data = [1, 2, 3, 4]\<rparr> = Inr y0
     \<and> shape y0 = [1, 1, 2 * 2]
     \<and> prepare_call (query_prep (projr (MultiHeadAttention 2 4 (1 / 10) True ident_init)))
         \<lparr>shape = [1, 1, 4], data = [1, 2, 3, 4]\<rparr> = Inr y
     \<and> shape y = [1, 1, 2, 2] \<and> data y = data y0
     \<and> at4 y 0 0 1 0 = at3 y0 0 0 (1 * 2 + 0)
     \<and> aggregate (identity_attn 1 1 2) y = Inr y
     \<and> reshape y [int 1, int 1, - 1] = Inr y0"
proof -
  obtain m0 where m0: "MultiHeadAttention 2 4 (1 / 10) True ident_init = Inr m0"
    using construct_2_4 by blast
  have "mha_dims (m0\<lparr>training := True, attn := None\<rparr>) (nat 2) (nat (4 div 2)) (nat 4)"
    by (rule construct_dims [OF m0])
  then have pd: "prep_dims (query_prep (projr (MultiHeadAttention 2 4 (1 / 10) True ident_init))) 2 2 4"
    unfolding m0 by (simp add: mha_dims_def)
  have s: "shape \<lparr>shape = [1, 1, 4], data = [1, 2, 3, 4::real]\<rparr> = [1, 1, 4]" by simp
  have r: "(0::nat) < 1" by simp
  from head_split_concat_roundtrip [OF pd s r r]
  show ?thesis by (elim exE conjE) (intro exI conjI, simp_all)
qed

subsection \<open>The entry check on the mask\<close>

text \<open>
  Claim C1. The entry check of the source compares the mask's query axis with the mask's
  own key axis, \<^verbatim>\<open>mask.shape[0] == mask.shape[1]\<close>, not with the length of the query.
  With two query positions and three key positions, a mask of shape \<open>[2, 3, 1]\<close>, whose
  query axis is the query length, is rejected by the assertion, and a mask of shape
  \<open>[3, 3, 1]\<close>, whose query axis is neither 1 nor the query length, passes the entry
  check; the call then fails when the mask is applied to the scores.
\<close>

theorem mask_entry_check_uses_key_axis:
  "forward (projr (MultiHeadAttention 1 1 (1 / 2) True ident_init)) keep_all
      \<lparr>shape = [2, 1, 1], data = [1, 1]\<rparr> \<lparr>shape = [3, 1, 1], data = [1, 1, 1]\<rparr>
      \<lparr>shape = [3, 1, 1], data = [1, 1, 1]\<rparr>
      (Some \<lparr>shape = [2, 3, 1], data = [True, True, True, True, True, True]\<rparr>)
    = (projr (MultiHeadAttention 1 1 (1 / 2) True ident_init), [], Inl AssertionError)
   \<and> check_mask \<lparr>shape = [3, 3, 1], data = [True, True, True, True, True, True, True, True, True]\<rparr>
    = Inr \<lparr>shape = [3, 3, 1, 1], data = [True, True, True, True, True, True, True, True, True]\<rparr>
   \<and> forward (projr (MultiHeadAttention 1 1 (1 / 2) True ident_init)) keep_all
      \<lparr>shape = [2, 1, 1], data = [1, 1]\<rparr> \<lparr>shape = [3, 1, 1], data = [1, 1, 1]\<rparr>
      \<lparr>shape = [3, 1, 1], data = [1, 1, 1]\<rparr>
      (Some \<lparr>shape = [3, 3, 1], data = [True, True, True, True, True, True, True, True, True]\<rparr>)
    = (projr (MultiHeadAttention 1 1 (1 / 2) True ident_init), [], Inl RuntimeError)"
proof -
  have 1: "check_mask \<lparr>shape = [2, 3, 1], data = [True, True, True, True, True, True]\<rparr>
      = Inl AssertionError"
    by (simp add: check_mask_def)
  have 2: "check_mask \<lparr>shape = [3, 3, 1], data = [True, True, True, True, True, True, True, True, True]\<rparr>
    = Inr \<lparr>shape = [3, 3, 1, 1], data = [True, True, True, True, True, True, True, True, True]\<rparr>"
    by (simp add: check_mask_def)
  have d: "prep_dims (query_prep (projr (MultiHeadAttention 1 1 (1 / 2) True ident_init))) 1 1 1"
      "prep_dims (key_prep (projr (MultiHeadAttention 1 1 (1 / 2) True ident_init))) 1 1 1"
      "prep_dims (value_prep (projr (MultiHeadAttention 1 1 (1 / 2) True ident_init))) 1 1 1"
    unfolding construct_1_1 by (simp_all add: prep_dims_def)
  have sq: "shape \<lparr>shape = [2, 1, 1], data = [1, 1::real]\<rparr> = [2, 1, 1]" by simp
  have sk: "shape \<lparr>shape = [3, 1, 1], data = [1, 1, 1::real]\<rparr> = [3, 1, 1]" by simp
  obtain yq where yq: "prepare_call (query_prep (projr (MultiHeadAttention 1 1 (1 / 2) True ident_init)))
      \<lparr>shape = [2, 1, 1], data = [1, 1]\<rparr> = Inr (yq\<lparr>shape := [2, 1, 1, 1]\<rparr>)"
    using prepare_call_ok [OF d(1) sq] by (elim exE conjE) (rule that)
  obtain yk where yk: "prepare_call (key_prep (projr (MultiHeadAttention 1 1 (1 / 2) True ident_init)))
      \<lparr>shape = [3, 1, 1], data = [1, 1, 1]\<rparr> = Inr (yk\<lparr>shape := [3, 1, 1, 1]\<rparr>)"
    using prepare_call_ok [OF d(2) sk] by (elim exE conjE) (rule that)
  obtain yv where yv: "prepare_call (value_prep (projr (MultiHeadAttention 1 1 (1 / 2) True ident_init)))
      \<lparr>shape = [3, 1, 1], data = [1, 1, 1]\<rparr> = Inr (yv\<lparr>shape := [3, 1, 1, 1]\<rparr>)"
    using prepare_call_ok [OF d(3) sk] by (elim exE conjE) (rule that)
  have gs: "get_scores (yq\<lparr>shape := [2, 1, 1, 1]\<rparr>) (yk\<lparr>shape := [3, 1, 1, 1]\<rparr>)
      = Inr (tabulate4 2 3 1 1 (\<lambda>i j b hh. \<Sum>d<1.
           at4 (yq\<lparr>shape := [2, 1, 1, 1]\<rparr>) i b hh d * at4 (yk\<lparr>shape := [3, 1, 1, 1]\<rparr>) j b hh d))"
    by (rule get_scores_ok) simp_all
  have mf: "masked_fill (scale_scores c (tabulate4 2 3 1 1 f))
      (eq_zero \<lparr>shape = [3, 3, 1, 1], data = [True, True, True, True, True, True, True, True, True]\<rparr>) x
      = Inl RuntimeError" for c f x
    by (simp add: masked_fill_def Let_def bcast_ok_def scale_scores_tabulate4 eq_zero_def)
  have 3: "forward (projr (MultiHeadAttention 1 1 (1 / 2) True ident_init)) keep_all
      \<lparr>shape = [2, 1, 1], data = [1, 1]\<rparr> \<lparr>shape = [3, 1, 1], data = [1, 1, 1]\<rparr>
      \<lparr>shape = [3, 1, 1], data = [1, 1, 1]\<rparr>
      (Some \<lparr>shape = [3, 3, 1], data = [True, True, True, True, True, True, True, True, True]\<rparr>)
    = (projr (MultiHeadAttention 1 1 (1 / 2) True ident_init), [], Inl RuntimeError)"
    by (simp add: forward_def attention_weights_def 2 yq yk yv gs mf del: One_nat_def)
  have 0: "forward (projr (MultiHeadAttention 1 1 (1 / 2) True ident_init)) keep_all
      \<lparr>shape = [2, 1, 1], data = [1, 1]\<rparr> \<lparr>shape = [3, 1, 1], data = [1, 1, 1]\<rparr>
      \<lparr>shape = [3, 1, 1], data = [1, 1, 1]\<rparr>
      (Some \<lparr>shape = [2, 3, 1], data = [True, True, True, True, True, True]\<rparr>)
    = (projr (MultiHeadAttention 1 1 (1 / 2) True ident_init), [], Inl AssertionError)"
    by (simp add: forward_def attention_weights_def 1 del: One_nat_def)
  show ?thesis using 0 2 3 by (intro conjI)
qed

subsection \<open>The scale factor\<close>

lemma attention_weights_scaled:
  assumes "attention_weights m keep q kk v msk = Inr w"
  shows "\<exists>Q K raw scores. prepare_call (query_prep m) q = Inr Q
     \<and> prepare_call (key_prep m) kk = Inr K \<and> get_scores Q K = Inr raw
     \<and> (case msk of None \<Rightarrow> Inr (scale_scores (scale m) raw)
          | Some mk \<Rightarrow> (case check_mask mk of Inl e \<Rightarrow> Inl e
              | Inr mk' \<Rightarrow> masked_fill (scale_scores (scale m) raw) (eq_zero mk') (- 1000000000)))
         = Inr scores
     \<and> softmax_dim1 scores = Inr (debug_attn w)"
  using assms
  by (auto simp: attention_weights_def split: list.splits sum.splits option.splits)

text \<open>
  Claim C9. A module that has been constructed stores \<open>d_k = d_model div heads\<close> and the
  scale \<open>1 / sqrt d_k\<close>; for \<open>d_k = 64\<close> the stored scale is \<open>0.125\<close>. In a call
  without a mask that reaches the softmax, the softmax is applied to the raw scores of the
  projected queries and keys with every element multiplied by that factor.
\<close>

theorem scale_is_inverse_sqrt_d_k:
  assumes "MultiHeadAttention H dm p ub init = Inr m0"
    and "m = m0\<lparr>training := t, attn := a\<rparr>"
    and "attention_weights m keep q kk v None = Inr w"
  shows "d_k m = dm div H
    \<and> scale m = 1 / sqrt (real_of_int (d_k m))
    \<and> (if d_k m = 64 then scale m = 0.125 else True)
    \<and> (\<exists>Q K raw. prepare_call (query_prep m) q = Inr Q
          \<and> prepare_call (key_prep m) kk = Inr K \<and> get_scores Q K = Inr raw
          \<and> data (scale_scores (scale m) raw)
                = map (\<lambda>x. x * (1 / sqrt (real_of_int (dm div H)))) (data raw)
          \<and> shape (scale_scores (scale m) raw) = shape raw
          \<and> softmax_dim1 (scale_scores (scale m) raw) = Inr (debug_attn w))"
proof -
  have c: "0 < H" "H \<le> dm" "0 \<le> p" "p \<le> 1" using construct_Inr [OF assms(1)] by simp_all
  have f: "d_k m = dm div H" "scale m = 1 / sqrt (real_of_int (dm div H))"
    using assms(1) unfolding assms(2) construct_fields [OF c] by auto
  obtain Q K raw where s: "prepare_call (query_prep m) q = Inr Q"
      "prepare_call (key_prep m) kk = Inr K" "get_scores Q K = Inr raw"
      "softmax_dim1 (scale_scores (scale m) raw) = Inr (debug_attn w)"
    using attention_weights_scaled [OF assms(3)] by auto
  have sc: "data (scale_scores (scale m) raw)
                = map (\<lambda>x. x * (1 / sqrt (real_of_int (dm div H)))) (data raw)"
      "shape (scale_scores (scale m) raw) = shape raw"
    by (simp_all add: scale_scores_def f(2))
  have "\<exists>Q K raw. prepare_call (query_prep m) q = Inr Q
          \<and> prepare_call (key_prep m) kk = Inr K \<and> get_scores Q K = Inr raw
          \<and> data (scale_scores (scale m) raw)
                = map (\<lambda>x. x * (1 / sqrt (real_of_int (dm div H)))) (data raw)
          \<and> shape (scale_scores (scale m) raw) = shape raw
          \<and> softmax_dim1 (scale_scores (scale m) raw) = Inr (debug_attn w)"
    by (intro exI [of _ Q] exI [of _ K] exI [of _ raw] conjI) (rule s sc)+
  then show ?thesis using f by (simp add: sqrt_64)
qed

lemma construct_8_512:
  "\<exists>m0. MultiHeadAttention 8 512 (1 / 10) True ident_init = Inr m0"
proof -
  have c: "(0::int) < 8" "(8::int) \<le> 512" "(0::real) \<le> 1 / 10" "(1 / 10 :: real) \<le> 1"
    by simp_all
  show ?thesis unfolding construct_fields [OF c] by blast
qed

theorem scale_is_inverse_sqrt_d_k_witness:
  "\<exists>w Q K raw.
      attention_weights (projr (MultiHeadAttention 8 512 (1 / 10) True ident_init)) keep_all
        \<lparr>shape = [1, 1, 512], data = replicate 512 1\<rparr> \<lparr>shape = [1, 1, 512], data = replicate 512 1\<rparr>
        \<lparr>shape = [1, 1, 512], data = replicate 512 1\<rparr> None = Inr w
    \<and> d_k (projr (MultiHeadAttention 8 512 (1 / 10) True ident_init)) = 64
    \<and> scale (projr (MultiHeadAttention 8 512 (1 / 10) True ident_init)) = 0.125
    \<and> get_scores Q K = Inr raw
    \<and> data (scale_scores (scale (projr (MultiHeadAttention 8 512 (1 / 10) True ident_init))) raw)
          = map (\<lambda>x. x * (1 / sqrt (real_of_int (512 div 8)))) (data raw)
    \<and> softmax_dim1 (scale_scores (scale (projr (MultiHeadAttention 8 512 (1 / 10) True ident_init))) raw)
          = Inr (debug_attn w)"
proof -
  obtain m0 where m0: "MultiHeadAttention 8 512 (1 / 10) True ident_init = Inr m0"
    using construct_8_512 by blast
  have tr: "training m0 = True" "attn m0 = None"
    using m0 by (auto simp: MultiHeadAttention_def Let_def split: sum.splits if_splits)
  have me: "m0 = m0\<lparr>training := True, attn := None\<rparr>"
    using tr by simp
  have d: "mha_dims m0 (nat 8) (nat (512 div 8)) (nat 512)"
    using construct_dims [OF m0, where t = True and a = None] me by simp
  have s: "shape \<lparr>shape = [1, 1, 512], data = replicate 512 (1::real)\<rparr> = [1, 1, nat 512]"
    by simp
  have ma: "mask_accepted None 1 1 1" by (simp add: mask_accepted_def)
  obtain w where w: "attention_weights m0 keep_all
        \<lparr>shape = [1, 1, 512], data = replicate 512 1\<rparr> \<lparr>shape = [1, 1, 512], data = replicate 512 1\<rparr>
        \<lparr>shape = [1, 1, 512], data = replicate 512 1\<rparr> None = Inr w"
    using attention_ok [OF d s s s ma, of keep_all] by (elim exE conjE) (rule that)
  from scale_is_inverse_sqrt_d_k [OF m0 me w]
  obtain Q K raw where r: "d_k m0 = 512 div 8"
      "if d_k m0 = 64 then scale m0 = 0.125 else True"
      "get_scores Q K = Inr raw"
      "data (scale_scores (scale m0) raw)
          = map (\<lambda>x. x * (1 / sqrt (real_of_int (512 div 8)))) (data raw)"
      "softmax_dim1 (scale_scores (scale m0) raw) = Inr (debug_attn w)"
    by (elim exE conjE) (rule that)
  have dk: "d_k m0 = 64" using r(1) by simp
  have sc: "scale m0 = 0.125" using r(2) unfolding dk by simp
  show ?thesis
    unfolding m0 sum.sel
    by (intro exI [of _ w] exI [of _ Q] exI [of _ K] exI [of _ raw] conjI)
      (rule w dk sc r(3) r(4) r(5))+
qed

end
